theory Spec2Isabelle
  imports Main "HOL-Library.Sublist"
begin

section \<open>The backend consistency test \<open>ci/s3test.c\<close>\<close>

text \<open>
  The program takes one path, checks by a directory scan that no entry of that name is
  listed, creates the file, checks that it is listed, unlinks it and checks that it is
  gone. It is a C program over the POSIX file interface. The embedding has two layers:
  \<^item> the environment: the storage backend (what a directory lists, what creating and
    unlinking do), the C library calls the program makes on top of it, and the process
    state they read and write;
  \<^item> the program: \<open>eh\<close>, \<open>lookup_file\<close> and \<open>main\<close>, translated line by line.
  The backend is a parameter of the program: the test exists to find backends that
  misbehave, so nothing is assumed about it unless a theorem says so. A reference
  filesystem is defined further down and used where a claim is about a well-behaved one.
\<close>

subsection \<open>C strings\<close>

text \<open>
  A C string is modelled by its bytes before the terminating NUL, a \<open>string\<close>; a
  \<open>char *\<close> that may be NULL is a \<open>string option\<close>. A pointer into a string is an offset.
  \<open>strrchr\<close> scans the whole string and remembers the last position where the byte
  occurred; the result \<open>None\<close> is the NULL it returns when the byte does not occur.
\<close>

fun strrchr_scan :: "string \<Rightarrow> char \<Rightarrow> nat \<Rightarrow> nat option \<Rightarrow> nat option" where
  "strrchr_scan [] c i found = found"
| "strrchr_scan (x # xs) c i found =
     strrchr_scan xs c (Suc i) (if x = c then Some i else found)"

definition strrchr :: "string \<Rightarrow> char \<Rightarrow> nat option" where
  "strrchr s c = strrchr_scan s c 0 None"

text \<open>\<open>strndup s n\<close> copies at most \<open>n\<close> bytes of \<open>s\<close> into a fresh block.\<close>

definition strndup :: "string \<Rightarrow> nat \<Rightarrow> string" where
  "strndup s n = take n s"

definition strlen :: "string \<Rightarrow> nat" where
  "strlen s = length s"

text \<open>
  \<open>strcmp\<close> compares byte by byte as unsigned values; the C standard fixes only the
  sign of the result, which is what the model returns.
\<close>

fun strcmp :: "string \<Rightarrow> string \<Rightarrow> int" where
  "strcmp [] [] = 0"
| "strcmp [] (b # bs) = - 1"
| "strcmp (a # as) [] = 1"
| "strcmp (a # as) (b # bs) =
     (if a = b then strcmp as bs
      else if (of_char a :: nat) < of_char b then - 1 else 1)"

subsection \<open>Error numbers\<close>

text \<open>The values of \<open>errno.h\<close> on Linux; POSIX requires them positive and distinct.\<close>

definition EPERM :: int where "EPERM = 1"
definition ENOENT :: int where "ENOENT = 2"
definition EIO :: int where "EIO = 5"
definition EBADF :: int where "EBADF = 9"
definition EACCES :: int where "EACCES = 13"
definition EFAULT :: int where "EFAULT = 14"
definition EISDIR :: int where "EISDIR = 21"

subsection \<open>The backend and the process\<close>

text \<open>
  A backend over worlds \<open>'w\<close> says what a directory lists (its entry names in
  enumeration order, or an error number when it cannot be opened), what creating and
  unlinking a path do (an error number, or the new world), and whether closing the
  descriptor of the file just created reports an error. Listing is a query: it has no
  new world.
\<close>

record 'w backend =
  be_list :: "'w \<Rightarrow> string \<Rightarrow> int + string list"
  be_create :: "'w \<Rightarrow> string \<Rightarrow> int + 'w"
  be_close :: "'w \<Rightarrow> int option"
  be_unlink :: "'w \<Rightarrow> string \<Rightarrow> int + 'w"

text \<open>
  The system and library calls of one run, in order, with what they returned. The log
  is what a system-call tracer would show; the program never reads it.
\<close>

datatype call =
    Opendir string bool
  | Readdir "string option"
  | Closedir
  | Open "string option" int
  | Close int int
  | Unlink "string option" int

text \<open>What the program writes to the standard error stream.\<close>

datatype diag =
    Perror string int
  | AssertFail nat string

record 'w proc =
  world :: 'w
  fds :: "nat list"
  dirstreams :: nat
  heap_blocks :: nat
  errno :: int
  stderr :: "diag list"
  trace :: "call list"

text \<open>A process starts with the three standard descriptors and nothing else.\<close>

definition init :: "'w \<Rightarrow> 'w proc" where
  "init w = \<lparr>world = w, fds = [0, 1, 2], dirstreams = 0, heap_blocks = 0,
             errno = 0, stderr = [], trace = []\<rparr>"

text \<open>
  How a run ends. \<open>Exited n\<close> is \<open>exit(n)\<close> or the return of \<open>main\<close>; \<open>Aborted\<close> is
  the \<open>abort()\<close> of a failed \<open>assert\<close>; \<open>Fault\<close> is undefined behaviour of the C
  program, which on the reference platform is an access through an unmapped address
  and kills the process with a signal. The model stops the run at the fault.
\<close>

datatype fault = BadArgv | NullPath | NoSeparator | NullDir

datatype outcome = Exited int | Aborted | Fault fault

datatype 'a result = Return 'a | Stop outcome

fun nonzero_status :: "outcome \<Rightarrow> bool" where
  "nonzero_status (Exited n) = (n \<noteq> 0)"
| "nonzero_status Aborted = True"
| "nonzero_status (Fault f) = True"

subsection \<open>The library calls\<close>

text \<open>
  Each call takes the process state and returns it changed, and writes itself to the
  log. Three things are left out. Allocation is taken to succeed. The source passes no
  mode to \<open>open\<close> although it passes \<open>O_CREAT\<close>, so the permission bits of the new file
  are not determined by the program; the model has no permission bits. \<open>readdir\<close> and
  \<open>closedir\<close> do not fail on a stream that is open.
\<close>

definition log_call :: "call \<Rightarrow> 'w proc \<Rightarrow> 'w proc" where
  "log_call c s = s\<lparr>trace := trace s @ [c]\<rparr>"

definition malloc_block :: "'w proc \<Rightarrow> 'w proc" where
  "malloc_block s = s\<lparr>heap_blocks := Suc (heap_blocks s)\<rparr>"

definition free_block :: "'w proc \<Rightarrow> 'w proc" where
  "free_block s = s\<lparr>heap_blocks := heap_blocks s - 1\<rparr>"

text \<open>
  \<open>opendir\<close> returns a stream, here the entries still to be read, or NULL with
  \<open>errno\<close> set. \<open>readdir\<close> hands out the next entry's name, or NULL at the end.
\<close>

definition opendir :: "'w backend \<Rightarrow> string \<Rightarrow> 'w proc \<Rightarrow> string list option \<times> 'w proc" where
  "opendir B name s =
     (case be_list B (world s) name of
        Inl e \<Rightarrow> (None, log_call (Opendir name False) (s\<lparr>errno := e\<rparr>))
      | Inr es \<Rightarrow> (Some es, log_call (Opendir name True) (s\<lparr>dirstreams := Suc (dirstreams s)\<rparr>)))"

definition closedir :: "'w proc \<Rightarrow> 'w proc" where
  "closedir s = log_call Closedir (s\<lparr>dirstreams := dirstreams s - 1\<rparr>)"

text \<open>\<open>open\<close> with \<open>O_RDWR | O_CREAT\<close>: the lowest free descriptor, or \<open>-1\<close>.\<close>

definition lowest_free :: "nat list \<Rightarrow> nat" where
  "lowest_free used =
     (case find (\<lambda>n. n \<notin> set used) [0..<Suc (length used)] of
        Some n \<Rightarrow> n
      | None \<Rightarrow> length used)"

definition sys_open :: "'w backend \<Rightarrow> string option \<Rightarrow> 'w proc \<Rightarrow> int \<times> 'w proc" where
  "sys_open B path s =
     (case path of
        None \<Rightarrow> (- 1, log_call (Open path (- 1)) (s\<lparr>errno := EFAULT\<rparr>))
      | Some p \<Rightarrow>
         (case be_create B (world s) p of
            Inl e \<Rightarrow> (- 1, log_call (Open path (- 1)) (s\<lparr>errno := e\<rparr>))
          | Inr w' \<Rightarrow>
             (let fd = lowest_free (fds s)
              in (int fd, log_call (Open path (int fd)) (s\<lparr>world := w', fds := fd # fds s\<rparr>)))))"

text \<open>
  \<open>close\<close> releases the descriptor whether or not the backend reports an error for it.
\<close>

definition sys_close :: "'w backend \<Rightarrow> int \<Rightarrow> 'w proc \<Rightarrow> int \<times> 'w proc" where
  "sys_close B fd s =
     (if 0 \<le> fd \<and> nat fd \<in> set (fds s)
      then (case be_close B (world s) of
              None \<Rightarrow> (0, log_call (Close fd 0) (s\<lparr>fds := removeAll (nat fd) (fds s)\<rparr>))
            | Some e \<Rightarrow>
               (- 1, log_call (Close fd (- 1))
                       (s\<lparr>fds := removeAll (nat fd) (fds s), errno := e\<rparr>)))
      else (- 1, log_call (Close fd (- 1)) (s\<lparr>errno := EBADF\<rparr>)))"

text \<open>
  What \<open>close\<close> returns in the world \<open>w\<close>, and the \<open>errno\<close> it leaves behind in a
  process where it was 0.
\<close>

definition close_ret :: "'w backend \<Rightarrow> 'w \<Rightarrow> int" where
  "close_ret B w = (case be_close B w of None \<Rightarrow> 0 | Some e \<Rightarrow> - 1)"

definition close_errno :: "'w backend \<Rightarrow> 'w \<Rightarrow> int" where
  "close_errno B w = (case be_close B w of None \<Rightarrow> 0 | Some e \<Rightarrow> e)"

definition sys_unlink :: "'w backend \<Rightarrow> string option \<Rightarrow> 'w proc \<Rightarrow> int \<times> 'w proc" where
  "sys_unlink B path s =
     (case path of
        None \<Rightarrow> (- 1, log_call (Unlink path (- 1)) (s\<lparr>errno := EFAULT\<rparr>))
      | Some p \<Rightarrow>
         (case be_unlink B (world s) p of
            Inl e \<Rightarrow> (- 1, log_call (Unlink path (- 1)) (s\<lparr>errno := e\<rparr>))
          | Inr w' \<Rightarrow> (0, log_call (Unlink path 0) (s\<lparr>world := w'\<rparr>))))"

definition perror :: "string \<Rightarrow> 'w proc \<Rightarrow> 'w proc" where
  "perror msg s = s\<lparr>stderr := stderr s @ [Perror msg (errno s)]\<rparr>"

text \<open>A failed \<open>assert\<close> prints the source line and the expression, then aborts.\<close>

definition assert_fail :: "nat \<Rightarrow> string \<Rightarrow> 'w proc \<Rightarrow> outcome \<times> 'w proc" where
  "assert_fail line expr s = (Aborted, s\<lparr>stderr := stderr s @ [AssertFail line expr]\<rparr>)"

subsection \<open>The program\<close>

text \<open>\<open>eh\<close> (lines 17 to 23): \<open>-1\<close> is reported and ends the process with status 1.\<close>

definition eh :: "string \<Rightarrow> int \<Rightarrow> 'w proc \<Rightarrow> int result \<times> 'w proc" where
  "eh msg v s = (if v = - 1 then (Stop (Exited 1), perror msg s) else (Return v, s))"

text \<open>
  Lines 26 and 27 of \<open>lookup_file\<close>: \<open>fname\<close> points one past the last \<open>/\<close>, and
  \<open>basedir\<close> is a copy of the bytes before \<open>fname\<close>. Without a \<open>/\<close> the pointer
  arithmetic starts from NULL, and there is no result.
\<close>

definition split_path :: "string \<Rightarrow> (string \<times> string) option" where
  "split_path file_path =
     (case strrchr file_path (CHR ''/'') of
        None \<Rightarrow> None
      | Some k \<Rightarrow> Some (strndup file_path (k + 1), drop (k + 1) file_path))"

text \<open>
  The loop of lines 33 to 38 over the entries still in the stream: every turn is one
  \<open>readdir\<close>, and the loop ends at NULL or at the first name that \<open>strcmp\<close> finds equal.
\<close>

fun readdir_loop :: "string list \<Rightarrow> string \<Rightarrow> int \<Rightarrow> 'w proc \<Rightarrow> int \<times> 'w proc" where
  "readdir_loop [] fname ec s = (ec, log_call (Readdir None) s)"
| "readdir_loop (d_name # rest) fname ec s =
     (if strcmp d_name fname = 0 then (0, log_call (Readdir (Some d_name)) s)
      else readdir_loop rest fname ec (log_call (Readdir (Some d_name)) s))"

text \<open>
  \<open>lookup_file\<close> (lines 25 to 42). The three ways into undefined behaviour are a NULL
  path (\<open>strrchr\<close> reads it), a path without \<open>/\<close> (line 26 adds 1 to the NULL that
  \<open>strrchr\<close> returned, and line 28 reads through the result), and a directory that does
  not open (line 33 hands the NULL of \<open>opendir\<close> to \<open>readdir\<close>). \<open>basedir\<close> is freed on
  line 30, before the loop. \<open>namelen\<close> is computed and never used.
\<close>

definition lookup_file :: "'w backend \<Rightarrow> string option \<Rightarrow> 'w proc \<Rightarrow> int result \<times> 'w proc" where
  "lookup_file B file_path s =
     (case file_path of
        None \<Rightarrow> (Stop (Fault NullPath), s)
      | Some p \<Rightarrow>
         (case split_path p of
            None \<Rightarrow> (Stop (Fault NoSeparator), s)
          | Some (basedir, fname) \<Rightarrow>
             (let s1 = malloc_block s;
                  namelen = strlen fname;
                  (dirp, s2) = opendir B basedir s1;
                  s3 = free_block s2
              in case dirp of
                   None \<Rightarrow> (Stop (Fault NullDir), s3)
                 | Some entries \<Rightarrow>
                    (let (ec, s4) = readdir_loop entries fname ENOENT s3
                     in (Return ec, closedir s4)))))"

text \<open>
  \<open>argv[i]\<close>: the strings of the command line, then the NULL that ends the vector;
  past that the access is out of bounds.
\<close>

definition argv_at :: "string list \<Rightarrow> nat \<Rightarrow> string option option" where
  "argv_at argv i =
     (if i < length argv then Some (Some (argv ! i))
      else if i = length argv then Some None
      else None)"

text \<open>
  \<open>main\<close> (lines 44 to 54). Each step runs only when the one before passed; the result
  of \<open>close\<close> on line 48 is discarded, so the run goes on whatever \<open>close\<close> reports.
\<close>

definition main :: "'w backend \<Rightarrow> string list \<Rightarrow> 'w proc \<Rightarrow> outcome \<times> 'w proc" where
  "main B argv s =
     (case argv_at argv 1 of
        None \<Rightarrow> (Fault BadArgv, s)
      | Some path \<Rightarrow>
         (case lookup_file B path s of
            (Stop out, s1) \<Rightarrow> (out, s1)
          | (Return r1, s1) \<Rightarrow>
             if r1 \<noteq> ENOENT then assert_fail 46 ''lookup_file(argv[1]) == ENOENT'' s1
             else
               (case sys_open B path s1 of (v, s2) \<Rightarrow>
                (case eh ''open'' v s2 of
                   (Stop out, s3) \<Rightarrow> (out, s3)
                 | (Return fd, s3) \<Rightarrow>
                    (let s4 = snd (sys_close B fd s3)
                     in case lookup_file B path s4 of
                          (Stop out, s5) \<Rightarrow> (out, s5)
                        | (Return r2, s5) \<Rightarrow>
                           if r2 \<noteq> 0 then assert_fail 49 ''lookup_file(argv[1]) == 0'' s5
                           else
                             (case sys_unlink B path s5 of (u, s6) \<Rightarrow>
                              (case eh ''unlink'' u s6 of
                                 (Stop out, s7) \<Rightarrow> (out, s7)
                               | (Return r, s7) \<Rightarrow>
                                  (case lookup_file B path s7 of
                                     (Stop out, s8) \<Rightarrow> (out, s8)
                                   | (Return r3, s8) \<Rightarrow>
                                      if r3 \<noteq> ENOENT
                                      then assert_fail 51 ''lookup_file(argv[1]) == ENOENT'' s8
                                      else (Exited 0, s8)))))))))"

text \<open>A run of the program: \<open>main\<close> in a fresh process over the world \<open>w\<close>.\<close>

definition run :: "'w backend \<Rightarrow> string list \<Rightarrow> 'w \<Rightarrow> outcome \<times> 'w proc" where
  "run B argv w = main B argv (init w)"

subsection \<open>What the specification calls the parts of a path, and a lookup\<close>

text \<open>
  The specification splits a path at its last separator: the base name is what follows
  it, the parent directory is everything up to and including it. These are written here
  from those words, by reading the path backwards, and compared with \<open>split_path\<close> below.
\<close>

definition name_of :: "string \<Rightarrow> string" where
  "name_of p = rev (takeWhile (\<lambda>c. c \<noteq> CHR ''/'') (rev p))"

definition parent_of :: "string \<Rightarrow> string" where
  "parent_of p = rev (dropWhile (\<lambda>c. c \<noteq> CHR ''/'') (rev p))"

text \<open>
  The specification's lookup: Found when the parent directory lists an entry with the
  very same name, NotFound when it lists none; no answer when the path has no separator
  or the parent directory cannot be opened.
\<close>

datatype presence = Found | NotFound

definition lookup_spec :: "'w backend \<Rightarrow> 'w \<Rightarrow> string \<Rightarrow> presence option" where
  "lookup_spec B w p =
     (if CHR ''/'' \<in> set p
      then (case be_list B w (parent_of p) of
              Inl e \<Rightarrow> None
            | Inr es \<Rightarrow> Some (if name_of p \<in> set es then Found else NotFound))
      else None)"

text \<open>
  The calls one lookup makes on a directory that opens: the entries before the first
  match are read and passed over, then comes the match itself or the NULL at the end.
\<close>

definition scan_calls :: "string list \<Rightarrow> string \<Rightarrow> call list" where
  "scan_calls es name =
     map (\<lambda>e. Readdir (Some e)) (takeWhile (\<lambda>e. e \<noteq> name) es)
       @ [Readdir (if name \<in> set es then Some name else None)]"

definition lookup_calls :: "string \<Rightarrow> string \<Rightarrow> string list \<Rightarrow> call list" where
  "lookup_calls parent name es = Opendir parent True # scan_calls es name @ [Closedir]"

text \<open>
  The steps of the driver as they show in the log: every \<open>opendir\<close> is the start of a
  lookup, and \<open>open\<close>, \<open>close\<close> and \<open>unlink\<close> are the steps between the lookups.
\<close>

datatype step = Lookup | Create | CloseHandle | Delete

fun step_of :: "call \<Rightarrow> step option" where
  "step_of (Opendir d ok) = Some Lookup"
| "step_of (Readdir e) = None"
| "step_of Closedir = None"
| "step_of (Open p r) = Some Create"
| "step_of (Close fd r) = Some CloseHandle"
| "step_of (Unlink p r) = Some Delete"

definition steps_run :: "call list \<Rightarrow> step list" where
  "steps_run tr = List.map_filter step_of tr"

definition fixed_sequence :: "step list" where
  "fixed_sequence = [Lookup, Create, CloseHandle, Lookup, Delete, Lookup]"

fun is_dir_read :: "call \<Rightarrow> bool" where
  "is_dir_read (Opendir d ok) = True"
| "is_dir_read (Readdir e) = True"
| "is_dir_read Closedir = True"
| "is_dir_read (Open p r) = False"
| "is_dir_read (Close fd r) = False"
| "is_dir_read (Unlink p r) = False"

subsection \<open>A reference filesystem\<close>

text \<open>
  A well-behaved backend, for the claims that are about one. A directory is known by
  its path with the trailing separator, as \<open>lookup_file\<close> hands it to \<open>opendir\<close>, and
  holds its entry names in enumeration order. Creating appends the name when it is not
  there yet; unlinking removes it. Creation can be refused for a directory and unlinking
  for a path, as access rules do. Paths are taken as spelled: no \<open>.\<close>, \<open>..\<close> or
  repeated separators are resolved.
\<close>

record filesys =
  dirs :: "string \<Rightarrow> string list option"
  deny_create :: "string set"
  deny_unlink :: "string set"

definition is_dir :: "filesys \<Rightarrow> string \<Rightarrow> bool" where
  "is_dir fs p = (dirs fs (p @ ''/'') \<noteq> None)"

definition ref_list :: "filesys \<Rightarrow> string \<Rightarrow> int + string list" where
  "ref_list fs d = (case dirs fs d of None \<Rightarrow> Inl ENOENT | Some es \<Rightarrow> Inr es)"

definition ref_create :: "filesys \<Rightarrow> string \<Rightarrow> int + filesys" where
  "ref_create fs p =
     (case dirs fs (parent_of p) of
        None \<Rightarrow> Inl ENOENT
      | Some es \<Rightarrow>
         if name_of p = [] \<or> is_dir fs p then Inl EISDIR
         else if name_of p \<in> set es then Inr fs
         else if parent_of p \<in> deny_create fs then Inl EACCES
         else Inr (fs\<lparr>dirs := (dirs fs)(parent_of p \<mapsto> es @ [name_of p])\<rparr>))"

definition ref_unlink :: "filesys \<Rightarrow> string \<Rightarrow> int + filesys" where
  "ref_unlink fs p =
     (case dirs fs (parent_of p) of
        None \<Rightarrow> Inl ENOENT
      | Some es \<Rightarrow>
         if name_of p \<notin> set es then Inl ENOENT
         else if is_dir fs p then Inl EISDIR
         else if p \<in> deny_unlink fs then Inl EPERM
         else Inr (fs\<lparr>dirs := (dirs fs)(parent_of p \<mapsto> removeAll (name_of p) es)\<rparr>))"

definition ref_backend :: "filesys backend" where
  "ref_backend = \<lparr>be_list = ref_list, be_create = ref_create, be_close = (\<lambda>fs. None),
                   be_unlink = ref_unlink\<rparr>"

text \<open>
  A scripted backend, for showing what the program does on a backend that misbehaves:
  the world counts the changes made so far, every change is accepted, and the listing
  of any directory after \<open>n\<close> changes is the \<open>n\<close>-th list of the script.
\<close>

definition scripted_backend :: "string list list \<Rightarrow> nat backend" where
  "scripted_backend script =
     \<lparr>be_list = (\<lambda>n d. if n < length script then Inr (script ! n) else Inl ENOENT),
      be_create = (\<lambda>n p. Inr (Suc n)),
      be_close = (\<lambda>n. None),
      be_unlink = (\<lambda>n p. Inr (Suc n))\<rparr>"

text \<open>The directory of the specification's end-to-end scenarios, empty but for the dot entries.\<close>

definition test_dir :: filesys where
  "test_dir = \<lparr>dirs = Map.empty(''/tmp/test_dir/'' \<mapsto> [''.'', ''..'']),
               deny_create = {}, deny_unlink = {}\<rparr>"

text \<open>The same directory with the file already there, and with creation or unlinking refused.\<close>

definition occupied_dir :: filesys where
  "occupied_dir = \<lparr>dirs = Map.empty(''/tmp/test_dir/'' \<mapsto> [''.'', ''..'', ''sample.txt'']),
                   deny_create = {}, deny_unlink = {}\<rparr>"

definition readonly_dir :: filesys where
  "readonly_dir = \<lparr>dirs = Map.empty(''/tmp/test_dir/'' \<mapsto> [''.'', ''..'']),
                   deny_create = {''/tmp/test_dir/''}, deny_unlink = {}\<rparr>"

definition keep_dir :: filesys where
  "keep_dir = \<lparr>dirs = Map.empty(''/tmp/test_dir/'' \<mapsto> [''.'', ''..'']),
               deny_create = {}, deny_unlink = {''/tmp/test_dir/sample.txt''}\<rparr>"

text \<open>
  Two backends that lose track: one never lists the file that was created, the other
  goes on listing it after it was unlinked.
\<close>

definition stale_backend :: "nat backend" where
  "stale_backend = scripted_backend [[], [], []]"

definition ghost_backend :: "nat backend" where
  "ghost_backend = scripted_backend [[], [''sample.txt''], [''sample.txt'']]"

text \<open>The reference filesystem with a \<open>close\<close> that always reports an input/output error.\<close>

definition failing_close :: "filesys backend" where
  "failing_close = ref_backend\<lparr>be_close := (\<lambda>fs. Some EIO)\<rparr>"

subsection \<open>Properties of the string functions\<close>

lemma strrchr_scan_absent: "c \<notin> set xs \<Longrightarrow> strrchr_scan xs c i found = found"
  by (induction xs arbitrary: i found) auto

lemma strrchr_scan_present:
  "c \<in> set xs \<Longrightarrow>
   \<exists>k. strrchr_scan xs c i found = Some (i + k) \<and> k < length xs \<and> xs ! k = c
       \<and> c \<notin> set (drop (Suc k) xs)"
proof (induction xs arbitrary: i found)
  case Nil
  then show ?case by simp
next
  case (Cons x xs)
  show ?case
  proof (cases "c \<in> set xs")
    case True
    from Cons.IH [OF True, of "Suc i" "if x = c then Some i else found"]
    obtain k where "strrchr_scan xs c (Suc i) (if x = c then Some i else found) = Some (Suc i + k)"
      and "k < length xs" and "xs ! k = c" and "c \<notin> set (drop (Suc k) xs)"
      by blast
    then show ?thesis
      by (intro exI [of _ "Suc k"]) simp
  next
    case False
    with Cons.prems have "x = c" by simp
    with False show ?thesis
      by (intro exI [of _ 0]) (simp add: strrchr_scan_absent)
  qed
qed

lemma strcmp_zero_iff: "strcmp a b = 0 \<longleftrightarrow> a = b"
  by (induction a b rule: strcmp.induct) auto

lemma strrchr_None_iff: "strrchr s c = None \<longleftrightarrow> c \<notin> set s"
proof
  assume none: "strrchr s c = None"
  show "c \<notin> set s"
  proof
    assume "c \<in> set s"
    from strrchr_scan_present [OF this, of 0 None] none
    show False by (auto simp: strrchr_def)
  qed
next
  assume "c \<notin> set s"
  then show "strrchr s c = None" by (simp add: strrchr_def strrchr_scan_absent)
qed

lemma strrchr_Some:
  assumes "strrchr s c = Some k"
  shows "k < length s \<and> s ! k = c \<and> c \<notin> set (drop (Suc k) s)"
proof -
  from assms have "c \<in> set s" using strrchr_None_iff [of s c] by auto
  from strrchr_scan_present [OF this, of 0 None] assms
  show ?thesis by (auto simp: strrchr_def)
qed

subsection \<open>The split of the code is the split of the specification\<close>

lemma takeWhile_until:
  "\<forall>x \<in> set xs. x \<noteq> c \<Longrightarrow> takeWhile (\<lambda>x. x \<noteq> c) (xs @ c # ys) = xs"
  by (induction xs) auto

lemma dropWhile_until:
  "\<forall>x \<in> set xs. x \<noteq> c \<Longrightarrow> dropWhile (\<lambda>x. x \<noteq> c) (xs @ c # ys) = c # ys"
  by (induction xs) auto

lemma last_sep_split:
  assumes "k < length p" and "p ! k = c" and "c \<notin> set (drop (Suc k) p)"
  shows "rev (takeWhile (\<lambda>x. x \<noteq> c) (rev p)) = drop (Suc k) p"
    and "rev (dropWhile (\<lambda>x. x \<noteq> c) (rev p)) = take (Suc k) p"
proof -
  let ?tl = "rev (drop (Suc k) p)" and ?hd = "rev (take k p)"
  have "p = take k p @ c # drop (Suc k) p"
    using assms(1,2) id_take_nth_drop by blast
  then have "rev p = rev (take k p @ c # drop (Suc k) p)"
    by simp
  then have r: "rev p = ?tl @ c # ?hd"
    by simp
  have all: "\<forall>x \<in> set ?tl. x \<noteq> c"
    using assms(3) by auto
  have "takeWhile (\<lambda>x. x \<noteq> c) (?tl @ c # ?hd) = ?tl"
    using all by (rule takeWhile_until)
  with r show "rev (takeWhile (\<lambda>x. x \<noteq> c) (rev p)) = drop (Suc k) p"
    by simp
  have "dropWhile (\<lambda>x. x \<noteq> c) (?tl @ c # ?hd) = c # ?hd"
    using all by (rule dropWhile_until)
  with r have "rev (dropWhile (\<lambda>x. x \<noteq> c) (rev p)) = take k p @ [c]"
    by simp
  also have "\<dots> = take (Suc k) p"
    using assms(1,2) by (simp add: take_Suc_conv_app_nth)
  finally show "rev (dropWhile (\<lambda>x. x \<noteq> c) (rev p)) = take (Suc k) p" .
qed

lemma split_path_spec:
  "split_path p = (if CHR ''/'' \<in> set p then Some (parent_of p, name_of p) else None)"
proof (cases "strrchr p (CHR ''/'')")
  case None
  then show ?thesis
    using strrchr_None_iff [of p "CHR ''/''"] by (simp add: split_path_def)
next
  case (Some k)
  from strrchr_Some [OF Some] have k: "k < length p" "p ! k = CHR ''/''"
    "CHR ''/'' \<notin> set (drop (Suc k) p)" by auto
  have "CHR ''/'' \<in> set p" using k(1,2) nth_mem by metis
  with Some last_sep_split [OF k] show ?thesis
    by (simp add: split_path_def strndup_def parent_of_def name_of_def)
qed

lemma parent_name_append: "parent_of p @ name_of p = p"
  unfolding parent_of_def name_of_def rev_append [symmetric]
  by simp

lemma name_of_no_sep: "CHR ''/'' \<notin> set (name_of p)"
proof
  assume "CHR ''/'' \<in> set (name_of p)"
  then have "CHR ''/'' \<in> set (takeWhile (\<lambda>c. c \<noteq> CHR ''/'') (rev p))"
    by (simp add: name_of_def)
  then show False by (auto dest: set_takeWhileD)
qed

lemma parent_of_ends_sep:
  assumes "CHR ''/'' \<in> set p"
  shows "parent_of p \<noteq> [] \<and> last (parent_of p) = CHR ''/''"
proof -
  let ?d = "dropWhile (\<lambda>c. c \<noteq> CHR ''/'') (rev p)"
  from assms have "?d \<noteq> []" by (auto simp: dropWhile_eq_Nil_conv)
  moreover from this have "hd ?d = CHR ''/''"
    using hd_dropWhile [of "\<lambda>c. c \<noteq> CHR ''/''" "rev p"] by simp
  ultimately show ?thesis by (simp add: parent_of_def last_rev)
qed

subsection \<open>What one lookup does\<close>

lemma readdir_loop_eq:
  "readdir_loop es fname ec s =
     (if fname \<in> set es then 0 else ec, s\<lparr>trace := trace s @ scan_calls es fname\<rparr>)"
  by (induction es arbitrary: s) (auto simp: scan_calls_def log_call_def strcmp_zero_iff)

lemma lookup_file_listed:
  assumes "split_path p = Some (parent, name)" and "be_list B (world s) parent = Inr es"
  shows "lookup_file B (Some p) s =
           (Return (if name \<in> set es then 0 else ENOENT),
            s\<lparr>trace := trace s @ lookup_calls parent name es\<rparr>)"
  using assms
  by (simp add: lookup_file_def opendir_def malloc_block_def free_block_def closedir_def
      log_call_def readdir_loop_eq lookup_calls_def)

lemma lookup_file_unlisted:
  assumes "split_path p = Some (parent, name)" and "be_list B (world s) parent = Inl e"
  shows "lookup_file B (Some p) s =
           (Stop (Fault NullDir), s\<lparr>errno := e, trace := trace s @ [Opendir parent False]\<rparr>)"
  using assms
  by (simp add: lookup_file_def opendir_def malloc_block_def free_block_def log_call_def)

lemma lookup_at:
  assumes "CHR ''/'' \<in> set p" and "be_list B (world s) (parent_of p) = Inr es"
  shows "lookup_file B (Some p) s =
           (Return (if name_of p \<in> set es then 0 else ENOENT),
            s\<lparr>trace := trace s @ lookup_calls (parent_of p) (name_of p) es\<rparr>)"
  using assms by (simp add: lookup_file_listed split_path_spec)

lemma lookup_fault_at:
  assumes "CHR ''/'' \<in> set p" and "be_list B (world s) (parent_of p) = Inl e"
  shows "lookup_file B (Some p) s =
           (Stop (Fault NullDir),
            s\<lparr>errno := e, trace := trace s @ [Opendir (parent_of p) False]\<rparr>)"
  using assms by (simp add: lookup_file_unlisted split_path_spec)

lemma ENOENT_nonzero: "ENOENT \<noteq> 0"
  by (simp add: ENOENT_def)

lemma lowest_free_init: "lowest_free [0, Suc 0, 2] = 3"
  by (simp add: lowest_free_def upt_rec)

lemma steps_run_append: "steps_run (xs @ ys) = steps_run xs @ steps_run ys"
  by (simp add: steps_run_def map_filter_def)

lemma steps_run_scan: "steps_run (scan_calls es name) = []"
  by (simp add: steps_run_def scan_calls_def map_filter_def filter_empty_conv)

lemma steps_run_lookup: "steps_run (lookup_calls parent name es) = [Lookup]"
  using steps_run_scan [of es name]
  by (simp add: steps_run_def lookup_calls_def map_filter_def)

lemma dir_reads_lookup: "list_all is_dir_read (lookup_calls parent name es)"
  by (simp add: lookup_calls_def scan_calls_def list_all_iff)

lemma lookup_null: "lookup_file B None s = (Stop (Fault NullPath), s)"
  by (simp add: lookup_file_def)

lemma lookup_noslash:
  "CHR ''/'' \<notin> set p \<Longrightarrow> lookup_file B (Some p) s = (Stop (Fault NoSeparator), s)"
  by (simp add: lookup_file_def split_path_spec)

lemma lookup_file_refines_spec:
  "fst (lookup_file B (Some p) s) =
     (case lookup_spec B (world s) p of
        Some Found \<Rightarrow> Return 0
      | Some NotFound \<Rightarrow> Return ENOENT
      | None \<Rightarrow> Stop (Fault (if CHR ''/'' \<in> set p then NullDir else NoSeparator)))"
proof (cases "CHR ''/'' \<in> set p")
  case False
  then show ?thesis by (simp add: lookup_noslash lookup_spec_def)
next
  case True
  then show ?thesis
    by (cases "be_list B (world s) (parent_of p)")
      (simp_all add: lookup_fault_at lookup_at lookup_spec_def)
qed

lemma lookup_stop_cases:
  assumes "lookup_file B (Some p) s = (Stop out, s')"
  shows "out = Fault NoSeparator \<or> out = Fault NullDir"
proof (cases "CHR ''/'' \<in> set p")
  case False
  with assms show ?thesis by (simp add: lookup_noslash)
next
  case True
  with assms show ?thesis
    by (cases "be_list B (world s) (parent_of p)") (auto simp: lookup_fault_at lookup_at)
qed

lemma main_outcomes:
  "fst (main B (prog # p # rest) s)
     \<in> {Exited 0, Exited 1, Aborted, Fault NoSeparator, Fault NullDir}"
  by (auto simp: main_def argv_at_def eh_def assert_fail_def Let_def
      split: prod.splits result.splits if_splits dest: lookup_stop_cases)

subsection \<open>The runs of the driver, case by case\<close>

text \<open>
  With a path argument \<open>p\<close>, what a run does is decided by the path and by the answers
  of the backend, in ten ways. Each lemma gives the outcome and the final process state
  of one of them; \<open>run_cases\<close> says that there is no other.
\<close>

lemma run_noslash:
  assumes "CHR ''/'' \<notin> set p"
  shows "run B (prog # p # rest) w = (Fault NoSeparator, init w)"
  using assms by (simp add: run_def main_def argv_at_def lookup_noslash)

lemma run_unlisted1:
  assumes "CHR ''/'' \<in> set p" and "be_list B w (parent_of p) = Inl e"
  shows "run B (prog # p # rest) w =
    (Fault NullDir, (init w)\<lparr>errno := e, trace := [Opendir (parent_of p) False]\<rparr>)"
  using assms by (simp add: run_def main_def argv_at_def lookup_fault_at init_def)

lemma run_present1:
  assumes "CHR ''/'' \<in> set p" and "be_list B w (parent_of p) = Inr es0"
    and "name_of p \<in> set es0"
  shows "run B (prog # p # rest) w =
    (Aborted, (init w)\<lparr>stderr := [AssertFail 46 ''lookup_file(argv[1]) == ENOENT''],
        trace := lookup_calls (parent_of p) (name_of p) es0\<rparr>)"
  using assms
  by (simp add: run_def main_def argv_at_def lookup_at init_def ENOENT_nonzero assert_fail_def)

lemma run_create_fails:
  assumes "CHR ''/'' \<in> set p" and "be_list B w (parent_of p) = Inr es0"
    and "name_of p \<notin> set es0" and "be_create B w p = Inl e"
  shows "run B (prog # p # rest) w =
    (Exited 1, (init w)\<lparr>errno := e, stderr := [Perror ''open'' e],
        trace := lookup_calls (parent_of p) (name_of p) es0 @ [Open (Some p) (- 1)]\<rparr>)"
  using assms
  by (simp add: run_def main_def argv_at_def lookup_at init_def ENOENT_nonzero
      sys_open_def eh_def perror_def log_call_def)

lemma run_unlisted2:
  assumes "CHR ''/'' \<in> set p" and "be_list B w (parent_of p) = Inr es0"
    and "name_of p \<notin> set es0" and "be_create B w p = Inr w1"
    and "be_list B w1 (parent_of p) = Inl e"
  shows "run B (prog # p # rest) w =
    (Fault NullDir, (init w)\<lparr>world := w1, errno := e,
        trace := lookup_calls (parent_of p) (name_of p) es0 @ [Open (Some p) 3, Close 3 (close_ret B w1)]
          @ [Opendir (parent_of p) False]\<rparr>)"
  using assms
  by (simp add: run_def main_def argv_at_def lookup_at lookup_fault_at init_def ENOENT_nonzero
      sys_open_def eh_def log_call_def lowest_free_init sys_close_def close_errno_def close_ret_def Let_def
      split: option.splits)

lemma run_absent2:
  assumes "CHR ''/'' \<in> set p" and "be_list B w (parent_of p) = Inr es0"
    and "name_of p \<notin> set es0" and "be_create B w p = Inr w1"
    and "be_list B w1 (parent_of p) = Inr es1" and "name_of p \<notin> set es1"
  shows "run B (prog # p # rest) w =
    (Aborted, (init w)\<lparr>world := w1, errno := close_errno B w1,
        stderr := [AssertFail 49 ''lookup_file(argv[1]) == 0''],
        trace := lookup_calls (parent_of p) (name_of p) es0 @ [Open (Some p) 3, Close 3 (close_ret B w1)]
          @ lookup_calls (parent_of p) (name_of p) es1\<rparr>)"
  using assms
  by (simp add: run_def main_def argv_at_def lookup_at init_def ENOENT_nonzero assert_fail_def
      sys_open_def eh_def log_call_def lowest_free_init sys_close_def close_errno_def close_ret_def Let_def
      split: option.splits)

lemma run_unlink_fails:
  assumes "CHR ''/'' \<in> set p" and "be_list B w (parent_of p) = Inr es0"
    and "name_of p \<notin> set es0" and "be_create B w p = Inr w1"
    and "be_list B w1 (parent_of p) = Inr es1" and "name_of p \<in> set es1"
    and "be_unlink B w1 p = Inl e"
  shows "run B (prog # p # rest) w =
    (Exited 1, (init w)\<lparr>world := w1, errno := e, stderr := [Perror ''unlink'' e],
        trace := lookup_calls (parent_of p) (name_of p) es0 @ [Open (Some p) 3, Close 3 (close_ret B w1)]
          @ lookup_calls (parent_of p) (name_of p) es1 @ [Unlink (Some p) (- 1)]\<rparr>)"
  using assms
  by (simp add: run_def main_def argv_at_def lookup_at init_def ENOENT_nonzero
      sys_open_def eh_def perror_def log_call_def lowest_free_init sys_close_def close_errno_def close_ret_def
      sys_unlink_def Let_def
      split: option.splits)

lemma run_unlisted3:
  assumes "CHR ''/'' \<in> set p" and "be_list B w (parent_of p) = Inr es0"
    and "name_of p \<notin> set es0" and "be_create B w p = Inr w1"
    and "be_list B w1 (parent_of p) = Inr es1" and "name_of p \<in> set es1"
    and "be_unlink B w1 p = Inr w2" and "be_list B w2 (parent_of p) = Inl e"
  shows "run B (prog # p # rest) w =
    (Fault NullDir, (init w)\<lparr>world := w2, errno := e,
        trace := lookup_calls (parent_of p) (name_of p) es0 @ [Open (Some p) 3, Close 3 (close_ret B w1)]
          @ lookup_calls (parent_of p) (name_of p) es1 @ [Unlink (Some p) 0]
          @ [Opendir (parent_of p) False]\<rparr>)"
  using assms
  by (simp add: run_def main_def argv_at_def lookup_at lookup_fault_at init_def ENOENT_nonzero
      sys_open_def eh_def log_call_def lowest_free_init sys_close_def close_errno_def close_ret_def sys_unlink_def Let_def
      split: option.splits)

lemma run_present3:
  assumes "CHR ''/'' \<in> set p" and "be_list B w (parent_of p) = Inr es0"
    and "name_of p \<notin> set es0" and "be_create B w p = Inr w1"
    and "be_list B w1 (parent_of p) = Inr es1" and "name_of p \<in> set es1"
    and "be_unlink B w1 p = Inr w2"
    and "be_list B w2 (parent_of p) = Inr es2" and "name_of p \<in> set es2"
  shows "run B (prog # p # rest) w =
    (Aborted, (init w)\<lparr>world := w2, errno := close_errno B w1,
        stderr := [AssertFail 51 ''lookup_file(argv[1]) == ENOENT''],
        trace := lookup_calls (parent_of p) (name_of p) es0 @ [Open (Some p) 3, Close 3 (close_ret B w1)]
          @ lookup_calls (parent_of p) (name_of p) es1 @ [Unlink (Some p) 0]
          @ lookup_calls (parent_of p) (name_of p) es2\<rparr>)"
  using assms
  by (simp add: run_def main_def argv_at_def lookup_at init_def ENOENT_nonzero assert_fail_def
      sys_open_def eh_def log_call_def lowest_free_init sys_close_def close_errno_def close_ret_def sys_unlink_def Let_def
      split: option.splits)

lemma run_success:
  assumes "CHR ''/'' \<in> set p" and "be_list B w (parent_of p) = Inr es0"
    and "name_of p \<notin> set es0" and "be_create B w p = Inr w1"
    and "be_list B w1 (parent_of p) = Inr es1" and "name_of p \<in> set es1"
    and "be_unlink B w1 p = Inr w2"
    and "be_list B w2 (parent_of p) = Inr es2" and "name_of p \<notin> set es2"
  shows "run B (prog # p # rest) w =
    (Exited 0, (init w)\<lparr>world := w2, errno := close_errno B w1,
        trace := lookup_calls (parent_of p) (name_of p) es0 @ [Open (Some p) 3, Close 3 (close_ret B w1)]
          @ lookup_calls (parent_of p) (name_of p) es1 @ [Unlink (Some p) 0]
          @ lookup_calls (parent_of p) (name_of p) es2\<rparr>)"
  using assms
  by (simp add: run_def main_def argv_at_def lookup_at init_def ENOENT_nonzero
      sys_open_def eh_def log_call_def lowest_free_init sys_close_def close_errno_def close_ret_def sys_unlink_def Let_def
      split: option.splits)

lemma run_cases [case_names noslash unlisted1 present1 create_fails unlisted2 absent2
    unlink_fails unlisted3 present3 success]:
  obtains
    "CHR ''/'' \<notin> set p"
  | e where "CHR ''/'' \<in> set p" and "be_list B w (parent_of p) = Inl e"
  | es0 where "CHR ''/'' \<in> set p" and "be_list B w (parent_of p) = Inr es0"
      and "name_of p \<in> set es0"
  | es0 e where "CHR ''/'' \<in> set p" and "be_list B w (parent_of p) = Inr es0"
      and "name_of p \<notin> set es0" and "be_create B w p = Inl e"
  | es0 w1 e where "CHR ''/'' \<in> set p" and "be_list B w (parent_of p) = Inr es0"
      and "name_of p \<notin> set es0" and "be_create B w p = Inr w1"
      and "be_list B w1 (parent_of p) = Inl e"
  | es0 w1 es1 where "CHR ''/'' \<in> set p" and "be_list B w (parent_of p) = Inr es0"
      and "name_of p \<notin> set es0" and "be_create B w p = Inr w1"
      and "be_list B w1 (parent_of p) = Inr es1" and "name_of p \<notin> set es1"
  | es0 w1 es1 e where "CHR ''/'' \<in> set p" and "be_list B w (parent_of p) = Inr es0"
      and "name_of p \<notin> set es0" and "be_create B w p = Inr w1"
      and "be_list B w1 (parent_of p) = Inr es1" and "name_of p \<in> set es1"
      and "be_unlink B w1 p = Inl e"
  | es0 w1 es1 w2 e where "CHR ''/'' \<in> set p" and "be_list B w (parent_of p) = Inr es0"
      and "name_of p \<notin> set es0" and "be_create B w p = Inr w1"
      and "be_list B w1 (parent_of p) = Inr es1" and "name_of p \<in> set es1"
      and "be_unlink B w1 p = Inr w2" and "be_list B w2 (parent_of p) = Inl e"
  | es0 w1 es1 w2 es2 where "CHR ''/'' \<in> set p" and "be_list B w (parent_of p) = Inr es0"
      and "name_of p \<notin> set es0" and "be_create B w p = Inr w1"
      and "be_list B w1 (parent_of p) = Inr es1" and "name_of p \<in> set es1"
      and "be_unlink B w1 p = Inr w2"
      and "be_list B w2 (parent_of p) = Inr es2" and "name_of p \<in> set es2"
  | es0 w1 es1 w2 es2 where "CHR ''/'' \<in> set p" and "be_list B w (parent_of p) = Inr es0"
      and "name_of p \<notin> set es0" and "be_create B w p = Inr w1"
      and "be_list B w1 (parent_of p) = Inr es1" and "name_of p \<in> set es1"
      and "be_unlink B w1 p = Inr w2"
      and "be_list B w2 (parent_of p) = Inr es2" and "name_of p \<notin> set es2"
proof (cases "CHR ''/'' \<in> set p")
  case False
  then show ?thesis by (rule that(1))
next
  case sep: True
  show ?thesis
  proof (cases "be_list B w (parent_of p)")
    case (Inl e)
    with sep show ?thesis by (rule that(2))
  next
    case l0: (Inr es0)
    show ?thesis
    proof (cases "name_of p \<in> set es0")
      case True
      with sep l0 show ?thesis by (rule that(3))
    next
      case a0: False
      show ?thesis
      proof (cases "be_create B w p")
        case (Inl e)
        with sep l0 a0 show ?thesis by (rule that(4))
      next
        case c: (Inr w1)
        show ?thesis
        proof (cases "be_list B w1 (parent_of p)")
          case (Inl e)
          with sep l0 a0 c show ?thesis by (rule that(5))
        next
          case l1: (Inr es1)
          show ?thesis
          proof (cases "name_of p \<in> set es1")
            case False
            with sep l0 a0 c l1 show ?thesis by (rule that(6))
          next
            case p1: True
            show ?thesis
            proof (cases "be_unlink B w1 p")
              case (Inl e)
              with sep l0 a0 c l1 p1 show ?thesis by (rule that(7))
            next
              case u: (Inr w2)
              show ?thesis
              proof (cases "be_list B w2 (parent_of p)")
                case (Inl e)
                with sep l0 a0 c l1 p1 u show ?thesis by (rule that(8))
              next
                case l2: (Inr es2)
                show ?thesis
                proof (cases "name_of p \<in> set es2")
                  case True
                  with sep l0 a0 c l1 p1 u l2 show ?thesis by (rule that(9))
                next
                  case False
                  with sep l0 a0 c l1 p1 u l2 show ?thesis by (rule that(10))
                qed
              qed
            qed
          qed
        qed
      qed
    qed
  qed
qed

text \<open>
  What \<open>close\<close> reports shows in \<open>errno\<close> and in the result the log records for it, and
  nowhere else: the outcome, the world, the descriptors, the steps and the standard
  error stream of a run are the same for any two backends that differ in it only.
\<close>

lemma run_ignores_close:
  "fst (run (B\<lparr>be_close := f\<rparr>) (prog # p # rest) w) = fst (run B (prog # p # rest) w)
   \<and> world (snd (run (B\<lparr>be_close := f\<rparr>) (prog # p # rest) w))
       = world (snd (run B (prog # p # rest) w))
   \<and> fds (snd (run (B\<lparr>be_close := f\<rparr>) (prog # p # rest) w))
       = fds (snd (run B (prog # p # rest) w))
   \<and> steps_run (trace (snd (run (B\<lparr>be_close := f\<rparr>) (prog # p # rest) w)))
       = steps_run (trace (snd (run B (prog # p # rest) w)))
   \<and> stderr (snd (run (B\<lparr>be_close := f\<rparr>) (prog # p # rest) w))
       = stderr (snd (run B (prog # p # rest) w))"
  by (cases rule: run_cases [where p = p and B = B and w = w])
    (simp_all add: run_noslash run_unlisted1 run_present1 run_create_fails run_unlisted2
      run_absent2 run_unlink_fails run_unlisted3 run_present3 run_success
      steps_run_append steps_run_lookup steps_run_def map_filter_def)

subsection \<open>The reference filesystem and the examples\<close>

lemma ref_create_unlink_restores:
  assumes "dirs fs (parent_of p) = Some es" and "name_of p \<notin> set es"
    and "ref_create fs p = Inr w1" and "ref_unlink w1 p = Inr w2"
  shows "w1 = fs\<lparr>dirs := (dirs fs)(parent_of p \<mapsto> es @ [name_of p])\<rparr>" and "w2 = fs"
proof -
  from assms(1-3) show w1: "w1 = fs\<lparr>dirs := (dirs fs)(parent_of p \<mapsto> es @ [name_of p])\<rparr>"
    by (auto simp: ref_create_def split: if_splits)
  have "(dirs fs)(parent_of p \<mapsto> es) = dirs fs"
    using assms(1) by (rule map_upd_triv)
  with assms(2,4) show "w2 = fs"
    by (auto simp: w1 ref_unlink_def split: if_splits)
qed

lemma ref_list_Inr: "be_list ref_backend fs d = Inr es \<longleftrightarrow> dirs fs d = Some es"
  by (simp add: ref_backend_def ref_list_def split: option.splits)

lemma sample_parts:
  "CHR ''/'' \<in> set ''/tmp/test_dir/sample.txt''"
  "parent_of ''/tmp/test_dir/sample.txt'' = ''/tmp/test_dir/''"
  "name_of ''/tmp/test_dir/sample.txt'' = ''sample.txt''"
  by (simp_all add: parent_of_def name_of_def)

lemma ref_ops:
  "be_list ref_backend = ref_list" "be_create ref_backend = ref_create"
  "be_unlink ref_backend = ref_unlink" "be_close ref_backend fs = None"
  by (simp_all add: ref_backend_def)

lemma scripted_ops:
  "be_list (scripted_backend script) n d = (if n < length script then Inr (script ! n) else Inl ENOENT)"
  "be_create (scripted_backend script) n p = Inr (Suc n)"
  "be_unlink (scripted_backend script) n p = Inr (Suc n)"
  by (simp_all add: scripted_backend_def)

subsection \<open>Reading the log\<close>

lemma no_file_call_in_lookup:
  "Open path r \<notin> set (lookup_calls d n es)" "Unlink path r \<notin> set (lookup_calls d n es)"
  using dir_reads_lookup [of d n es] by (auto simp: list_all_iff)

lemma steps_run_Cons:
  "steps_run (c # cs) = (case step_of c of None \<Rightarrow> steps_run cs | Some st \<Rightarrow> st # steps_run cs)"
  by (simp add: steps_run_def map_filter_def split: option.splits)

lemma steps_run_Nil: "steps_run [] = []"
  by (simp add: steps_run_def map_filter_def)

lemma not_dir_read_lookup:
  "filter (\<lambda>c. \<not> is_dir_read c) (lookup_calls d n es) = []"
  using dir_reads_lookup [of d n es] by (simp add: filter_empty_conv list_all_iff)

lemma run_exit0:
  assumes "fst (run B (prog # p # rest) w) = Exited 0"
  obtains es0 w1 es1 w2 es2 where "CHR ''/'' \<in> set p" and "be_list B w (parent_of p) = Inr es0"
      and "name_of p \<notin> set es0" and "be_create B w p = Inr w1"
      and "be_list B w1 (parent_of p) = Inr es1" and "name_of p \<in> set es1"
      and "be_unlink B w1 p = Inr w2"
      and "be_list B w2 (parent_of p) = Inr es2" and "name_of p \<notin> set es2"
proof (cases rule: run_cases [where p = p and B = B and w = w])
  case noslash
  with assms show ?thesis by (simp add: run_noslash)
next
  case (unlisted1 e)
  with assms show ?thesis by (simp add: run_unlisted1)
next
  case (present1 es0)
  with assms show ?thesis by (simp add: run_present1)
next
  case (create_fails es0 e)
  with assms show ?thesis by (simp add: run_create_fails)
next
  case (unlisted2 es0 w1 e)
  with assms show ?thesis by (simp add: run_unlisted2)
next
  case (absent2 es0 w1 es1)
  with assms show ?thesis by (simp add: run_absent2)
next
  case (unlink_fails es0 w1 es1 e)
  with assms show ?thesis by (simp add: run_unlink_fails)
next
  case (unlisted3 es0 w1 es1 w2 e)
  with assms show ?thesis by (simp add: run_unlisted3)
next
  case (present3 es0 w1 es1 w2 es2)
  with assms show ?thesis by (simp add: run_present3)
next
  case (success es0 w1 es1 w2 es2)
  then show ?thesis by (rule that)
qed

lemma run_test_dir:
  "fst (run ref_backend [''s3test'', ''/tmp/test_dir/sample.txt''] test_dir) = Exited 0"
proof -
  let ?p = "''/tmp/test_dir/sample.txt''"
  let ?w1 = "test_dir\<lparr>dirs := (dirs test_dir)(''/tmp/test_dir/'' \<mapsto> [''.'', ''..'', ''sample.txt''])\<rparr>"
  have par: "parent_of ?p = ''/tmp/test_dir/''" by (simp add: parent_of_def)
  have nam: "name_of ?p = ''sample.txt''" by (simp add: name_of_def)
  have sep: "CHR ''/'' \<in> set ?p" by simp
  have l0: "be_list ref_backend test_dir (parent_of ?p) = Inr [''.'', ''..'']"
    by (simp add: par ref_list_Inr test_dir_def)
  have a0: "name_of ?p \<notin> set [''.'', ''..'']" by (simp add: nam)
  have c: "be_create ref_backend test_dir ?p = Inr ?w1"
    by (simp add: ref_backend_def ref_create_def par nam test_dir_def is_dir_def)
  have l1: "be_list ref_backend ?w1 (parent_of ?p) = Inr [''.'', ''..'', ''sample.txt'']"
    by (simp add: par ref_list_Inr)
  have p1: "name_of ?p \<in> set [''.'', ''..'', ''sample.txt'']" by (simp add: nam)
  have u: "be_unlink ref_backend ?w1 ?p = Inr test_dir"
    by (simp add: ref_backend_def ref_unlink_def par nam test_dir_def is_dir_def)
  have l2: "be_list ref_backend test_dir (parent_of ?p) = Inr [''.'', ''..'']" by (rule l0)
  from run_success [OF sep l0 a0 c l1 p1 u l2 a0] show ?thesis by simp
qed

subsection \<open>When the reference filesystem lets a run pass\<close>

lemma parent_of_shorter: "parent_of p \<noteq> p @ ''/''"
proof
  assume "parent_of p = p @ ''/''"
  then have "length (parent_of p) = Suc (length p)" by simp
  moreover have "length (parent_of p) + length (name_of p) = length p"
    using parent_name_append [of p] by (metis length_append)
  ultimately show False by simp
qed

lemma ref_cycle:
  assumes d: "dirs fs (parent_of p) = Some es" and a: "name_of p \<notin> set es"
    and n: "name_of p \<noteq> []" and nd: "\<not> is_dir fs p"
    and pc: "parent_of p \<notin> deny_create fs" and pu: "p \<notin> deny_unlink fs"
  shows "ref_create fs p = Inr (fs\<lparr>dirs := (dirs fs)(parent_of p \<mapsto> es @ [name_of p])\<rparr>)"
    and "ref_unlink (fs\<lparr>dirs := (dirs fs)(parent_of p \<mapsto> es @ [name_of p])\<rparr>) p = Inr fs"
proof -
  show "ref_create fs p = Inr (fs\<lparr>dirs := (dirs fs)(parent_of p \<mapsto> es @ [name_of p])\<rparr>)"
    using d a n nd pc by (simp add: ref_create_def)
  have same: "(dirs fs)(parent_of p \<mapsto> es) = dirs fs"
    using d by (rule map_upd_triv)
  have "\<not> is_dir (fs\<lparr>dirs := (dirs fs)(parent_of p \<mapsto> es @ [name_of p])\<rparr>) p"
    using nd parent_of_shorter [of p] by (simp add: is_dir_def)
  then show "ref_unlink (fs\<lparr>dirs := (dirs fs)(parent_of p \<mapsto> es @ [name_of p])\<rparr>) p = Inr fs"
    using a pu by (simp add: ref_unlink_def same)
qed

lemma ref_absent:
  "lookup_spec ref_backend fs p = Some NotFound \<longleftrightarrow>
     CHR ''/'' \<in> set p \<and> (\<exists>es. dirs fs (parent_of p) = Some es \<and> name_of p \<notin> set es)"
  by (auto simp: lookup_spec_def ref_ops ref_list_def split: option.splits if_splits)

lemma run_ref_ready:
  assumes "lookup_spec ref_backend fs p = Some NotFound"
    and n: "name_of p \<noteq> []" and nd: "\<not> is_dir fs p"
    and pc: "parent_of p \<notin> deny_create fs" and pu: "p \<notin> deny_unlink fs"
  obtains es where "dirs fs (parent_of p) = Some es" and "name_of p \<notin> set es"
    and "run ref_backend (prog # p # rest) fs =
      (Exited 0, (init fs)\<lparr>trace :=
          lookup_calls (parent_of p) (name_of p) es @ [Open (Some p) 3, Close 3 0]
          @ lookup_calls (parent_of p) (name_of p) (es @ [name_of p]) @ [Unlink (Some p) 0]
          @ lookup_calls (parent_of p) (name_of p) es\<rparr>)"
proof -
  from assms(1) obtain es where sep: "CHR ''/'' \<in> set p"
    and d: "dirs fs (parent_of p) = Some es" and a: "name_of p \<notin> set es"
    by (auto simp: ref_absent)
  let ?w1 = "fs\<lparr>dirs := (dirs fs)(parent_of p \<mapsto> es @ [name_of p])\<rparr>"
  note cyc = ref_cycle [OF d a n nd pc pu]
  have l0: "be_list ref_backend fs (parent_of p) = Inr es"
    using d by (simp add: ref_list_Inr)
  have c: "be_create ref_backend fs p = Inr ?w1"
    using cyc(1) by (simp add: ref_ops)
  have l1: "be_list ref_backend ?w1 (parent_of p) = Inr (es @ [name_of p])"
    by (simp add: ref_list_Inr)
  have p1: "name_of p \<in> set (es @ [name_of p])" by simp
  have u: "be_unlink ref_backend ?w1 p = Inr fs"
    using cyc(2) by (simp add: ref_ops)
  have "close_ret ref_backend ?w1 = 0" "close_errno ref_backend ?w1 = 0"
    by (simp_all add: close_ret_def close_errno_def ref_ops)
  with run_success [OF sep l0 a c l1 p1 u l0 a, of prog rest]
  have "run ref_backend (prog # p # rest) fs =
      (Exited 0, (init fs)\<lparr>trace :=
          lookup_calls (parent_of p) (name_of p) es @ [Open (Some p) 3, Close 3 0]
          @ lookup_calls (parent_of p) (name_of p) (es @ [name_of p]) @ [Unlink (Some p) 0]
          @ lookup_calls (parent_of p) (name_of p) es\<rparr>)"
    by (simp add: init_def)
  with d a show ?thesis by (rule that)
qed

lemma run_ref_exit0_ready:
  assumes "fst (run ref_backend (prog # p # rest) fs) = Exited 0"
  shows "lookup_spec ref_backend fs p = Some NotFound \<and> name_of p \<noteq> [] \<and> \<not> is_dir fs p
       \<and> parent_of p \<notin> deny_create fs \<and> p \<notin> deny_unlink fs"
proof -
  from assms obtain es0 w1 es1 w2 es2 where sep: "CHR ''/'' \<in> set p"
    and l0: "be_list ref_backend fs (parent_of p) = Inr es0"
    and a0: "name_of p \<notin> set es0" and c: "be_create ref_backend fs p = Inr w1"
    and u: "be_unlink ref_backend w1 p = Inr w2"
    by (rule run_exit0)
  from l0 have d0: "dirs fs (parent_of p) = Some es0" by (simp add: ref_list_Inr)
  from c have c': "ref_create fs p = Inr w1" by (simp add: ref_ops)
  from u have u': "ref_unlink w1 p = Inr w2" by (simp add: ref_ops)
  from d0 a0 c' have pre: "name_of p \<noteq> []" "\<not> is_dir fs p" "parent_of p \<notin> deny_create fs"
    by (auto simp: ref_create_def split: if_splits)
  from ref_create_unlink_restores(1) [OF d0 a0 c' u']
  have w1: "w1 = fs\<lparr>dirs := (dirs fs)(parent_of p \<mapsto> es0 @ [name_of p])\<rparr>" .
  from u' have "p \<notin> deny_unlink fs"
    by (auto simp: w1 ref_unlink_def split: if_splits)
  with sep d0 a0 pre show ?thesis by (simp add: ref_absent)
qed

section \<open>Properties of the program\<close>

subsection \<open>The path splitter\<close>

text \<open>
  C7. For every path with at least one separator, lines 26 and 27 produce a parent
  string and a base name that are the split at the last separator: the base name has no
  separator, the parent ends with one, and the two concatenated are the input path byte
  for byte, so that splitting the concatenation gives the same pair again. The splitter
  is a function of the path alone: \<open>split_path\<close> takes and returns no process state.
\<close>

theorem split_path_reconstructs:
  assumes "CHR ''/'' \<in> set p"
  shows "\<exists>parent name. split_path p = Some (parent, name) \<and> parent @ name = p
           \<and> parent = parent_of p \<and> name = name_of p
           \<and> CHR ''/'' \<notin> set name \<and> parent \<noteq> [] \<and> last parent = CHR ''/''
           \<and> split_path (parent @ name) = Some (parent, name)"
proof -
  from assms have "split_path p = Some (parent_of p, name_of p)"
    by (simp add: split_path_spec)
  moreover have "parent_of p @ name_of p = p"
    by (rule parent_name_append)
  moreover note name_of_no_sep [of p] parent_of_ends_sep [OF assms]
  ultimately show ?thesis by simp
qed

theorem split_path_reconstructs_witness:
  "CHR ''/'' \<in> set ''/tmp/test_dir/sample.txt''
   \<and> split_path ''/tmp/test_dir/sample.txt'' = Some (''/tmp/test_dir/'', ''sample.txt'')
   \<and> ''/tmp/test_dir/'' @ ''sample.txt'' = ''/tmp/test_dir/sample.txt''"
proof -
  have sep: "CHR ''/'' \<in> set ''/tmp/test_dir/sample.txt''" by simp
  from split_path_reconstructs [OF sep]
  obtain parent name where "split_path ''/tmp/test_dir/sample.txt'' = Some (parent, name)"
    and "parent = parent_of ''/tmp/test_dir/sample.txt''"
    and "name = name_of ''/tmp/test_dir/sample.txt''"
    by blast
  then show ?thesis by (simp add: parent_of_def name_of_def)
qed

subsection \<open>The lookup\<close>

text \<open>
  C2. For every path with a separator whose parent directory opens, \<open>lookup_file\<close>
  splits the path into parent and name, opens the parent, reads its entries in
  enumeration order up to the first one equal to the name, and closes the directory. It
  returns 0 when an entry is the name byte for byte and \<open>ENOENT\<close> when none is, the
  whole listing having been read; so an entry that is only a prefix, a suffix or a case
  variant of the name never makes it return 0.
\<close>

theorem lookup_file_exact_match:
  assumes "CHR ''/'' \<in> set p" and "be_list B (world s) (parent_of p) = Inr es"
  shows "split_path p = Some (parent_of p, name_of p)
       \<and> fst (lookup_file B (Some p) s) = Return (if name_of p \<in> set es then 0 else ENOENT)
       \<and> (fst (lookup_file B (Some p) s) = Return 0 \<longleftrightarrow> name_of p \<in> set es)
       \<and> trace (snd (lookup_file B (Some p) s)) =
           trace s @ Opendir (parent_of p) True
             # map (\<lambda>e. Readdir (Some e)) (takeWhile (\<lambda>e. e \<noteq> name_of p) es)
             @ [Readdir (if name_of p \<in> set es then Some (name_of p) else None), Closedir]"
  using assms
  by (simp add: lookup_at split_path_spec lookup_calls_def scan_calls_def ENOENT_nonzero)

text \<open>
  A directory that lists a prefix, an extension, a suffix match and two case variants of
  \<open>ab\<close>, but not \<open>ab\<close>: every entry is read and the answer is \<open>ENOENT\<close>. And a
  directory that lists \<open>ab\<close> twice: the scan stops at the first.
\<close>

theorem lookup_file_exact_match_witness:
  "CHR ''/'' \<in> set ''/d/ab''
   \<and> be_list (scripted_backend [[''a'', ''abc'', ''xab'', ''AB'', ''Ab'']]) (world (init 0))
         (parent_of ''/d/ab'')
       = Inr [''a'', ''abc'', ''xab'', ''AB'', ''Ab'']
   \<and> fst (lookup_file (scripted_backend [[''a'', ''abc'', ''xab'', ''AB'', ''Ab'']])
         (Some ''/d/ab'') (init 0))
       = Return ENOENT
   \<and> trace (snd (lookup_file (scripted_backend [[''a'', ''abc'', ''xab'', ''AB'', ''Ab'']])
         (Some ''/d/ab'') (init 0)))
       = [Opendir ''/d/'' True, Readdir (Some ''a''), Readdir (Some ''abc''),
          Readdir (Some ''xab''), Readdir (Some ''AB''), Readdir (Some ''Ab''),
          Readdir None, Closedir]
   \<and> be_list (scripted_backend [[''x'', ''ab'', ''y'', ''ab'']]) (world (init 0))
         (parent_of ''/d/ab'')
       = Inr [''x'', ''ab'', ''y'', ''ab'']
   \<and> fst (lookup_file (scripted_backend [[''x'', ''ab'', ''y'', ''ab'']]) (Some ''/d/ab'') (init 0))
       = Return 0
   \<and> trace (snd (lookup_file (scripted_backend [[''x'', ''ab'', ''y'', ''ab'']])
         (Some ''/d/ab'') (init 0)))
       = [Opendir ''/d/'' True, Readdir (Some ''x''), Readdir (Some ''ab''), Closedir]"
proof -
  let ?B = "scripted_backend [[''a'', ''abc'', ''xab'', ''AB'', ''Ab'']]"
  let ?C = "scripted_backend [[''x'', ''ab'', ''y'', ''ab'']]"
  have sep: "CHR ''/'' \<in> set ''/d/ab''" by simp
  have ls: "be_list ?B (world (init 0)) (parent_of ''/d/ab'')
      = Inr [''a'', ''abc'', ''xab'', ''AB'', ''Ab'']"
    by (simp add: scripted_backend_def init_def)
  have ls': "be_list ?C (world (init 0)) (parent_of ''/d/ab'') = Inr [''x'', ''ab'', ''y'', ''ab'']"
    by (simp add: scripted_backend_def init_def)
  from lookup_file_exact_match [OF sep ls] lookup_file_exact_match [OF sep ls'] sep ls ls'
  show ?thesis by (simp add: parent_of_def name_of_def init_def)
qed

text \<open>
  C8. For every path whose parent directory, as \<open>lookup_file\<close> derives it, opens, the
  lookup returns 0 or \<open>ENOENT\<close> and nothing else, and the two values differ.
\<close>

theorem lookup_file_two_values:
  assumes "split_path p = Some (basedir, fname)" and "be_list B (world s) basedir = Inr es"
  shows "(fst (lookup_file B (Some p) s) = Return 0
          \<or> fst (lookup_file B (Some p) s) = Return ENOENT)
       \<and> ENOENT \<noteq> 0"
  using assms by (simp add: lookup_file_listed ENOENT_nonzero)

theorem lookup_file_two_values_witness:
  "split_path ''/tmp/test_dir/sample.txt'' = Some (''/tmp/test_dir/'', ''sample.txt'')
   \<and> be_list ref_backend (world (init test_dir)) ''/tmp/test_dir/'' = Inr [''.'', ''..'']
   \<and> (fst (lookup_file ref_backend (Some ''/tmp/test_dir/sample.txt'') (init test_dir)) = Return 0
      \<or> fst (lookup_file ref_backend (Some ''/tmp/test_dir/sample.txt'') (init test_dir))
           = Return ENOENT)"
proof -
  have sp: "split_path ''/tmp/test_dir/sample.txt'' = Some (''/tmp/test_dir/'', ''sample.txt'')"
    by (simp add: split_path_spec parent_of_def name_of_def)
  have ls: "be_list ref_backend (world (init test_dir)) ''/tmp/test_dir/'' = Inr [''.'', ''..'']"
    by (simp add: ref_backend_def ref_list_def init_def test_dir_def)
  from lookup_file_two_values [OF sp ls] sp ls show ?thesis by simp
qed

text \<open>
  C9. A lookup changes nothing but \<open>errno\<close> and the log: for every path, NULL and
  separator-free ones included, and however the lookup ends, the world of the backend
  (every directory listing, every file) is the one it started in, the open descriptors
  are the same, the directory stream and the heap copy of the parent string are gone
  again, nothing was printed, and every call it made is a directory read.
\<close>

theorem lookup_file_read_only:
  "world (snd (lookup_file B path s)) = world s
   \<and> fds (snd (lookup_file B path s)) = fds s
   \<and> dirstreams (snd (lookup_file B path s)) = dirstreams s
   \<and> heap_blocks (snd (lookup_file B path s)) = heap_blocks s
   \<and> stderr (snd (lookup_file B path s)) = stderr s
   \<and> (\<exists>calls. trace (snd (lookup_file B path s)) = trace s @ calls
         \<and> list_all is_dir_read calls)"
proof (cases path)
  case None
  then show ?thesis by (simp add: lookup_null)
next
  case (Some p)
  show ?thesis
  proof (cases "CHR ''/'' \<in> set p")
    case False
    with Some show ?thesis by (simp add: lookup_noslash)
  next
    case True
    show ?thesis
    proof (cases "be_list B (world s) (parent_of p)")
      case (Inl e)
      with Some True show ?thesis by (simp add: lookup_fault_at)
    next
      case (Inr es)
      with Some True show ?thesis by (simp add: lookup_at dir_reads_lookup)
    qed
  qed
qed

text \<open>
  C3, at an input where it fails. The parent directory \<open>/missing/\<close> does not exist in
  \<open>test_dir\<close>, so \<open>opendir\<close> returns NULL; \<open>lookup_file\<close> does not test for it and hands
  the NULL to \<open>readdir\<close> on line 33. The run ends there: the only call in the log is the
  \<open>opendir\<close> that failed, and no \<open>closedir\<close> follows.
\<close>

theorem lookup_file_unopened_parent_faults:
  "lookup_file ref_backend (Some ''/missing/sample.txt'') (init test_dir) =
     (Stop (Fault NullDir),
      (init test_dir)\<lparr>errno := ENOENT, trace := [Opendir ''/missing/'' False]\<rparr>)"
proof -
  have sep: "CHR ''/'' \<in> set ''/missing/sample.txt''" by simp
  have par: "parent_of ''/missing/sample.txt'' = ''/missing/''" by (simp add: parent_of_def)
  have "be_list ref_backend (world (init test_dir)) (parent_of ''/missing/sample.txt'')
      = Inl ENOENT"
    by (simp add: par ref_backend_def ref_list_def init_def test_dir_def)
  from lookup_fault_at [OF sep this] show ?thesis by (simp add: par init_def)
qed

subsection \<open>The driver\<close>

text \<open>
  C10. \<open>main\<close> reads \<open>argv[1]\<close> without looking at \<open>argc\<close>. With at least one argument
  after the program name the access yields that argument. With none, \<open>argv[1]\<close> is the
  NULL that ends the vector, and the first thing the run does is hand it to
  \<open>lookup_file\<close>, which faults on it; with an empty vector the access itself is out of
  bounds. So a run is free of these two faults exactly when \<open>argc\<close> is at least 2.
\<close>

theorem main_needs_path_argument:
  "(2 \<le> length argv \<longrightarrow> argv_at argv 1 = Some (Some (argv ! 1)))
   \<and> (length argv = 1 \<longrightarrow> argv_at argv 1 = Some None \<and> main B argv s = (Fault NullPath, s))
   \<and> (length argv = 0 \<longrightarrow> argv_at argv 1 = None \<and> main B argv s = (Fault BadArgv, s))
   \<and> (fst (main B argv s) \<notin> {Fault NullPath, Fault BadArgv} \<longleftrightarrow> 2 \<le> length argv)"
proof -
  have two: "fst (main B argv s) \<notin> {Fault NullPath, Fault BadArgv}" if "2 \<le> length argv"
  proof -
    from that obtain prog p rest where "argv = prog # p # rest"
      by (cases argv; cases "tl argv") auto
    with main_outcomes [of B prog p rest s] show ?thesis by auto
  qed
  have one: "main B argv s = (Fault NullPath, s)" if "length argv = 1"
    using that by (simp add: main_def argv_at_def lookup_null)
  have zero: "main B argv s = (Fault BadArgv, s)" if "length argv = 0"
    using that by (simp add: main_def argv_at_def)
  have "length argv = 0 \<or> length argv = 1 \<or> 2 \<le> length argv" by arith
  with two one zero show ?thesis by (auto simp: argv_at_def)
qed

theorem main_needs_path_argument_witness:
  "2 \<le> length [''s3test'', ''/tmp/test_dir/sample.txt'']
   \<and> argv_at [''s3test'', ''/tmp/test_dir/sample.txt''] 1
       = Some (Some ''/tmp/test_dir/sample.txt'')
   \<and> length [''s3test''] = 1
   \<and> argv_at [''s3test''] 1 = Some None
   \<and> main ref_backend [''s3test''] (init test_dir) = (Fault NullPath, init test_dir)
   \<and> length ([] :: string list) = 0
   \<and> main ref_backend [] (init test_dir) = (Fault BadArgv, init test_dir)"
  using main_needs_path_argument
      [of "[''s3test'', ''/tmp/test_dir/sample.txt'']" ref_backend "init test_dir"]
    main_needs_path_argument [of "[''s3test'']" ref_backend "init test_dir"]
    main_needs_path_argument [of "[]" ref_backend "init test_dir"]
  by simp

text \<open>
  C1, as it fails. On a backend whose \<open>close\<close> reports an error, \<open>close\<close> returns \<open>-1\<close>
  on line 48, nothing looks at it, and the run goes on to exit with status 0 and an
  empty standard error stream: a failing call that does not end the run.
\<close>

theorem failing_close_exits_0_counterexample:
  "Close 3 (- 1)
     \<in> set (trace (snd (run failing_close [''s3test'', ''/tmp/test_dir/sample.txt''] test_dir)))
   \<and> fst (run failing_close [''s3test'', ''/tmp/test_dir/sample.txt''] test_dir) = Exited 0
   \<and> errno (snd (run failing_close [''s3test'', ''/tmp/test_dir/sample.txt''] test_dir)) = EIO
   \<and> stderr (snd (run failing_close [''s3test'', ''/tmp/test_dir/sample.txt''] test_dir)) = []"
proof -
  let ?p = "''/tmp/test_dir/sample.txt''"
  let ?w1 = "test_dir\<lparr>dirs := (dirs test_dir)(''/tmp/test_dir/'' \<mapsto> [''.'', ''..'', ''sample.txt''])\<rparr>"
  have ops: "be_list failing_close = ref_list" "be_create failing_close = ref_create"
    "be_unlink failing_close = ref_unlink" "be_close failing_close ?w1 = Some EIO"
    by (simp_all add: failing_close_def ref_backend_def)
  have l0: "be_list failing_close test_dir (parent_of ?p) = Inr [''.'', ''..'']"
    by (simp add: ops sample_parts ref_list_def test_dir_def)
  have a0: "name_of ?p \<notin> set [''.'', ''..'']" by (simp add: sample_parts)
  have c: "be_create failing_close test_dir ?p = Inr ?w1"
    by (simp add: ops ref_create_def sample_parts test_dir_def is_dir_def)
  have l1: "be_list failing_close ?w1 (parent_of ?p) = Inr [''.'', ''..'', ''sample.txt'']"
    by (simp add: ops sample_parts ref_list_def)
  have p1: "name_of ?p \<in> set [''.'', ''..'', ''sample.txt'']" by (simp add: sample_parts)
  have u: "be_unlink failing_close ?w1 ?p = Inr test_dir"
    by (simp add: ops ref_unlink_def sample_parts test_dir_def is_dir_def)
  have "close_ret failing_close ?w1 = - 1" "close_errno failing_close ?w1 = EIO"
    by (simp_all add: close_ret_def close_errno_def ops)
  with run_success [OF sample_parts(1) l0 a0 c l1 p1 u l0 a0, of "''s3test''" "[]"]
  show ?thesis by (simp add: init_def)
qed

text \<open>
  C1, amended. With a path argument, the run is the fixed sequence and nothing else: a
  lookup that must say NotFound, the creation and the closing of its descriptor, a
  lookup that must say Found, the unlink, a lookup that must say NotFound. The steps in
  the log are always a beginning of that sequence, and no run leaves a descriptor open:
  after a creation that succeeded, \<open>close\<close> is called on the descriptor \<open>open\<close> returned
  and releases it. What \<open>close\<close> returns is not checked and does not stop the run. The run
  exits with status 0 exactly when the backend lets the three lookups, the creation and
  the unlink pass, one after the other, and then the whole sequence has run. Every other
  run ends by \<open>exit(1)\<close>, by \<open>abort\<close> or in a fault. When a lookup gives the wrong answer
  the run aborts, and when the creation or the unlink fails it exits with 1, in each case
  with the failing step the last one in the log.
\<close>

theorem main_fixed_sequence:
  fixes B :: "'w backend"
  defines "out \<equiv> \<lambda>prog p rest w. fst (run B (prog # p # rest) w)"
    and "fin \<equiv> \<lambda>prog p rest w. snd (run B (prog # p # rest) w)"
    and "steps \<equiv> \<lambda>prog p rest w. steps_run (trace (snd (run B (prog # p # rest) w)))"
  shows "(out prog p rest w = Exited 0 \<longleftrightarrow>
            (\<exists>w1 w2. lookup_spec B w p = Some NotFound \<and> be_create B w p = Inr w1
                \<and> lookup_spec B w1 p = Some Found \<and> be_unlink B w1 p = Inr w2
                \<and> lookup_spec B w2 p = Some NotFound))
       \<and> (out prog p rest w = Exited 0 \<or> out prog p rest w = Exited 1
            \<or> out prog p rest w = Aborted \<or> out prog p rest w = Fault NoSeparator
            \<or> out prog p rest w = Fault NullDir)
       \<and> prefix (steps prog p rest w) fixed_sequence
       \<and> fds (fin prog p rest w) = [0, 1, 2]
       \<and> (\<forall>w1. lookup_spec B w p = Some NotFound \<and> be_create B w p = Inr w1 \<longrightarrow>
            take 2 (filter (\<lambda>c. \<not> is_dir_read c) (trace (fin prog p rest w)))
              = [Open (Some p) 3, Close 3 (close_ret B w1)])
       \<and> (out prog p rest w = Exited 0 \<longrightarrow>
            steps prog p rest w = fixed_sequence
            \<and> (\<exists>w1. be_create B w p = Inr w1
                  \<and> filter (\<lambda>c. \<not> is_dir_read c) (trace (fin prog p rest w))
                      = [Open (Some p) 3, Close 3 (close_ret B w1), Unlink (Some p) 0]))
       \<and> (lookup_spec B w p = Some Found \<longrightarrow>
            out prog p rest w = Aborted \<and> steps prog p rest w = [Lookup])
       \<and> (\<forall>e. lookup_spec B w p = Some NotFound \<and> be_create B w p = Inl e \<longrightarrow>
            out prog p rest w = Exited 1 \<and> steps prog p rest w = [Lookup, Create])
       \<and> (\<forall>w1. lookup_spec B w p = Some NotFound \<and> be_create B w p = Inr w1
              \<and> lookup_spec B w1 p = Some NotFound \<longrightarrow>
            out prog p rest w = Aborted
            \<and> steps prog p rest w = [Lookup, Create, CloseHandle, Lookup])
       \<and> (\<forall>w1 e. lookup_spec B w p = Some NotFound \<and> be_create B w p = Inr w1
              \<and> lookup_spec B w1 p = Some Found \<and> be_unlink B w1 p = Inl e \<longrightarrow>
            out prog p rest w = Exited 1
            \<and> steps prog p rest w = [Lookup, Create, CloseHandle, Lookup, Delete])
       \<and> (\<forall>w1 w2. lookup_spec B w p = Some NotFound \<and> be_create B w p = Inr w1
              \<and> lookup_spec B w1 p = Some Found \<and> be_unlink B w1 p = Inr w2
              \<and> lookup_spec B w2 p = Some Found \<longrightarrow>
            out prog p rest w = Aborted \<and> steps prog p rest w = fixed_sequence)"
proof -
  note runs = run_noslash run_unlisted1 run_present1 run_create_fails run_unlisted2
    run_absent2 run_unlink_fails run_unlisted3 run_present3 run_success
  note log = init_def steps_run_append steps_run_lookup steps_run_Cons steps_run_Nil
    not_dir_read_lookup fixed_sequence_def
  have a: "out prog p rest w = Exited 0 \<longleftrightarrow>
            (\<exists>w1 w2. lookup_spec B w p = Some NotFound \<and> be_create B w p = Inr w1
                \<and> lookup_spec B w1 p = Some Found \<and> be_unlink B w1 p = Inr w2
                \<and> lookup_spec B w2 p = Some NotFound)"
    unfolding out_def
    by (cases rule: run_cases [where p = p and B = B and w = w])
      (simp_all add: runs lookup_spec_def)
  have b: "out prog p rest w = Exited 0 \<or> out prog p rest w = Exited 1
            \<or> out prog p rest w = Aborted \<or> out prog p rest w = Fault NoSeparator
            \<or> out prog p rest w = Fault NullDir"
    unfolding out_def
    by (cases rule: run_cases [where p = p and B = B and w = w]) (simp_all add: runs)
  have c: "prefix (steps prog p rest w) fixed_sequence"
    unfolding steps_def
    by (cases rule: run_cases [where p = p and B = B and w = w]) (simp_all add: runs log)
  have c': "fds (fin prog p rest w) = [0, 1, 2]"
    unfolding fin_def
    by (cases rule: run_cases [where p = p and B = B and w = w]) (simp_all add: runs init_def)
  have c'': "\<forall>w1. lookup_spec B w p = Some NotFound \<and> be_create B w p = Inr w1 \<longrightarrow>
            take 2 (filter (\<lambda>c. \<not> is_dir_read c) (trace (fin prog p rest w)))
              = [Open (Some p) 3, Close 3 (close_ret B w1)]"
    unfolding fin_def
    by (cases rule: run_cases [where p = p and B = B and w = w])
      (simp_all add: runs log lookup_spec_def)
  have d: "out prog p rest w = Exited 0 \<longrightarrow>
            steps prog p rest w = fixed_sequence
            \<and> (\<exists>w1. be_create B w p = Inr w1
                  \<and> filter (\<lambda>c. \<not> is_dir_read c) (trace (fin prog p rest w))
                      = [Open (Some p) 3, Close 3 (close_ret B w1), Unlink (Some p) 0])"
    unfolding out_def steps_def fin_def
    by (cases rule: run_cases [where p = p and B = B and w = w]) (simp_all add: runs log)
  have e: "lookup_spec B w p = Some Found \<longrightarrow>
            out prog p rest w = Aborted \<and> steps prog p rest w = [Lookup]"
    unfolding out_def steps_def
    by (cases rule: run_cases [where p = p and B = B and w = w])
      (simp_all add: run_present1 log lookup_spec_def)
  have f: "\<forall>e. lookup_spec B w p = Some NotFound \<and> be_create B w p = Inl e \<longrightarrow>
            out prog p rest w = Exited 1 \<and> steps prog p rest w = [Lookup, Create]"
    unfolding out_def steps_def
    by (cases rule: run_cases [where p = p and B = B and w = w])
      (simp_all add: run_create_fails log lookup_spec_def)
  have g: "\<forall>w1. lookup_spec B w p = Some NotFound \<and> be_create B w p = Inr w1
              \<and> lookup_spec B w1 p = Some NotFound \<longrightarrow>
            out prog p rest w = Aborted
            \<and> steps prog p rest w = [Lookup, Create, CloseHandle, Lookup]"
    unfolding out_def steps_def
    by (cases rule: run_cases [where p = p and B = B and w = w])
      (simp_all add: run_absent2 log lookup_spec_def)
  have h: "\<forall>w1 e. lookup_spec B w p = Some NotFound \<and> be_create B w p = Inr w1
              \<and> lookup_spec B w1 p = Some Found \<and> be_unlink B w1 p = Inl e \<longrightarrow>
            out prog p rest w = Exited 1
            \<and> steps prog p rest w = [Lookup, Create, CloseHandle, Lookup, Delete]"
    unfolding out_def steps_def
    by (cases rule: run_cases [where p = p and B = B and w = w])
      (simp_all add: run_unlink_fails log lookup_spec_def)
  have i: "\<forall>w1 w2. lookup_spec B w p = Some NotFound \<and> be_create B w p = Inr w1
              \<and> lookup_spec B w1 p = Some Found \<and> be_unlink B w1 p = Inr w2
              \<and> lookup_spec B w2 p = Some Found \<longrightarrow>
            out prog p rest w = Aborted \<and> steps prog p rest w = fixed_sequence"
    unfolding out_def steps_def
    by (cases rule: run_cases [where p = p and B = B and w = w])
      (simp_all add: run_present3 log lookup_spec_def)
  from a b c c' c'' d e f g h i show ?thesis by blast
qed

text \<open>
  One run for each way through the sequence: the empty directory of the end-to-end
  scenario, the file already there, creation refused, a backend that never lists the
  new file, unlinking refused, a backend that lists the file after the unlink, and the
  reference filesystem with a \<open>close\<close> that reports an error, on which the run passes
  and leaves no descriptor open.
\<close>

theorem main_fixed_sequence_witness:
  "fst (run ref_backend [''s3test'', ''/tmp/test_dir/sample.txt''] test_dir) = Exited 0
   \<and> steps_run (trace (snd (run ref_backend [''s3test'', ''/tmp/test_dir/sample.txt''] test_dir)))
       = [Lookup, Create, CloseHandle, Lookup, Delete, Lookup]
   \<and> fst (run ref_backend [''s3test'', ''/tmp/test_dir/sample.txt''] occupied_dir) = Aborted
   \<and> steps_run (trace (snd (run ref_backend [''s3test'', ''/tmp/test_dir/sample.txt''] occupied_dir)))
       = [Lookup]
   \<and> fst (run ref_backend [''s3test'', ''/tmp/test_dir/sample.txt''] readonly_dir) = Exited 1
   \<and> steps_run (trace (snd (run ref_backend [''s3test'', ''/tmp/test_dir/sample.txt''] readonly_dir)))
       = [Lookup, Create]
   \<and> fst (run stale_backend [''s3test'', ''/tmp/test_dir/sample.txt''] 0) = Aborted
   \<and> steps_run (trace (snd (run stale_backend [''s3test'', ''/tmp/test_dir/sample.txt''] 0)))
       = [Lookup, Create, CloseHandle, Lookup]
   \<and> fst (run ref_backend [''s3test'', ''/tmp/test_dir/sample.txt''] keep_dir) = Exited 1
   \<and> steps_run (trace (snd (run ref_backend [''s3test'', ''/tmp/test_dir/sample.txt''] keep_dir)))
       = [Lookup, Create, CloseHandle, Lookup, Delete]
   \<and> fst (run ghost_backend [''s3test'', ''/tmp/test_dir/sample.txt''] 0) = Aborted
   \<and> steps_run (trace (snd (run ghost_backend [''s3test'', ''/tmp/test_dir/sample.txt''] 0)))
       = [Lookup, Create, CloseHandle, Lookup, Delete, Lookup]
   \<and> fst (run failing_close [''s3test'', ''/tmp/test_dir/sample.txt''] test_dir) = Exited 0
   \<and> fds (snd (run failing_close [''s3test'', ''/tmp/test_dir/sample.txt''] test_dir)) = [0, 1, 2]
   \<and> take 2 (filter (\<lambda>c. \<not> is_dir_read c)
         (trace (snd (run failing_close [''s3test'', ''/tmp/test_dir/sample.txt''] test_dir))))
       = [Open (Some ''/tmp/test_dir/sample.txt'') 3, Close 3 (- 1)]"
proof -
  let ?p = "''/tmp/test_dir/sample.txt''"
  let ?with = "\<lambda>fs. fs\<lparr>dirs := (dirs fs)(''/tmp/test_dir/'' \<mapsto> [''.'', ''..'', ''sample.txt''])\<rparr>"
  have ok: "lookup_spec ref_backend test_dir ?p = Some NotFound
      \<and> be_create ref_backend test_dir ?p = Inr (?with test_dir)
      \<and> lookup_spec ref_backend (?with test_dir) ?p = Some Found
      \<and> be_unlink ref_backend (?with test_dir) ?p = Inr test_dir
      \<and> lookup_spec ref_backend test_dir ?p = Some NotFound"
    by (simp add: lookup_spec_def sample_parts ref_ops ref_list_def ref_create_def
        ref_unlink_def is_dir_def test_dir_def)
  have occ: "lookup_spec ref_backend occupied_dir ?p = Some Found"
    by (simp add: lookup_spec_def sample_parts ref_ops ref_list_def occupied_dir_def)
  have ro: "lookup_spec ref_backend readonly_dir ?p = Some NotFound
      \<and> be_create ref_backend readonly_dir ?p = Inl EACCES"
    by (simp add: lookup_spec_def sample_parts ref_ops ref_list_def ref_create_def
        is_dir_def readonly_dir_def)
  have stale: "lookup_spec stale_backend 0 ?p = Some NotFound
      \<and> be_create stale_backend 0 ?p = Inr (Suc 0)
      \<and> lookup_spec stale_backend (Suc 0) ?p = Some NotFound"
    by (simp add: lookup_spec_def sample_parts stale_backend_def scripted_ops)
  have keep: "lookup_spec ref_backend keep_dir ?p = Some NotFound
      \<and> be_create ref_backend keep_dir ?p = Inr (?with keep_dir)
      \<and> lookup_spec ref_backend (?with keep_dir) ?p = Some Found
      \<and> be_unlink ref_backend (?with keep_dir) ?p = Inl EPERM"
    by (simp add: lookup_spec_def sample_parts ref_ops ref_list_def ref_create_def
        ref_unlink_def is_dir_def keep_dir_def)
  have ghost: "lookup_spec ghost_backend 0 ?p = Some NotFound
      \<and> be_create ghost_backend 0 ?p = Inr (Suc 0)
      \<and> lookup_spec ghost_backend (Suc 0) ?p = Some Found
      \<and> be_unlink ghost_backend (Suc 0) ?p = Inr (Suc (Suc 0))
      \<and> lookup_spec ghost_backend (Suc (Suc 0)) ?p = Some Found"
    by (simp add: lookup_spec_def sample_parts ghost_backend_def scripted_ops)
  have 1: "fst (run ref_backend [''s3test'', ?p] test_dir) = Exited 0"
    using main_fixed_sequence
        [where B = ref_backend and w = test_dir and p = ?p and prog = "''s3test''" and rest = "[]"] ok by blast
  then have 2: "steps_run (trace (snd (run ref_backend [''s3test'', ?p] test_dir))) = fixed_sequence"
    using main_fixed_sequence
        [where B = ref_backend and w = test_dir and p = ?p and prog = "''s3test''" and rest = "[]"] by blast
  have 3: "fst (run ref_backend [''s3test'', ?p] occupied_dir) = Aborted
      \<and> steps_run (trace (snd (run ref_backend [''s3test'', ?p] occupied_dir))) = [Lookup]"
    using main_fixed_sequence
        [where B = ref_backend and w = occupied_dir and p = ?p and prog = "''s3test''" and rest = "[]"] occ by blast
  have 4: "fst (run ref_backend [''s3test'', ?p] readonly_dir) = Exited 1
      \<and> steps_run (trace (snd (run ref_backend [''s3test'', ?p] readonly_dir))) = [Lookup, Create]"
    using main_fixed_sequence
        [where B = ref_backend and w = readonly_dir and p = ?p and prog = "''s3test''" and rest = "[]"] ro by blast
  have 5: "fst (run stale_backend [''s3test'', ?p] 0) = Aborted
      \<and> steps_run (trace (snd (run stale_backend [''s3test'', ?p] 0)))
          = [Lookup, Create, CloseHandle, Lookup]"
    using main_fixed_sequence
        [where B = stale_backend and w = 0 and p = ?p and prog = "''s3test''" and rest = "[]"] stale by blast
  have 6: "fst (run ref_backend [''s3test'', ?p] keep_dir) = Exited 1
      \<and> steps_run (trace (snd (run ref_backend [''s3test'', ?p] keep_dir)))
          = [Lookup, Create, CloseHandle, Lookup, Delete]"
    using main_fixed_sequence
        [where B = ref_backend and w = keep_dir and p = ?p and prog = "''s3test''" and rest = "[]"] keep by blast
  have 7: "fst (run ghost_backend [''s3test'', ?p] 0) = Aborted
      \<and> steps_run (trace (snd (run ghost_backend [''s3test'', ?p] 0))) = fixed_sequence"
    using main_fixed_sequence
        [where B = ghost_backend and w = 0 and p = ?p and prog = "''s3test''" and rest = "[]"] ghost by blast
  have fc: "lookup_spec failing_close test_dir ?p = Some NotFound
      \<and> be_create failing_close test_dir ?p = Inr (?with test_dir)
      \<and> lookup_spec failing_close (?with test_dir) ?p = Some Found
      \<and> be_unlink failing_close (?with test_dir) ?p = Inr test_dir
      \<and> lookup_spec failing_close test_dir ?p = Some NotFound"
    by (simp add: lookup_spec_def sample_parts failing_close_def ref_ops ref_list_def
        ref_create_def ref_unlink_def is_dir_def test_dir_def)
  have 8: "fst (run failing_close [''s3test'', ?p] test_dir) = Exited 0"
    using main_fixed_sequence
        [where B = failing_close and w = test_dir and p = ?p and prog = "''s3test''" and rest = "[]"]
      fc by blast
  have 9: "fds (snd (run failing_close [''s3test'', ?p] test_dir)) = [0, 1, 2]"
    using main_fixed_sequence
        [where B = failing_close and w = test_dir and p = ?p and prog = "''s3test''" and rest = "[]"]
    by blast
  have "take 2 (filter (\<lambda>c. \<not> is_dir_read c)
        (trace (snd (run failing_close [''s3test'', ?p] test_dir))))
      = [Open (Some ?p) 3, Close 3 (close_ret failing_close (?with test_dir))]"
    using main_fixed_sequence
        [where B = failing_close and w = test_dir and p = ?p and prog = "''s3test''" and rest = "[]"]
      fc by blast
  moreover have "close_ret failing_close (?with test_dir) = - 1"
    by (simp add: close_ret_def failing_close_def)
  ultimately have 10: "take 2 (filter (\<lambda>c. \<not> is_dir_read c)
        (trace (snd (run failing_close [''s3test'', ?p] test_dir))))
      = [Open (Some ?p) 3, Close 3 (- 1)]"
    by simp
  from 1 2 3 4 5 6 7 8 9 10 show ?thesis by (simp add: fixed_sequence_def)
qed

text \<open>
  C4. Whenever \<open>open\<close> or \<open>unlink\<close> returns \<open>-1\<close> in a run, the run exits with
  status 1 and the only thing on the standard error stream is the line of \<open>perror\<close>:
  the name of the call, \<open>open\<close> or \<open>unlink\<close>, and the error the backend gave for it.
  That is what \<open>eh\<close> does with any \<open>-1\<close>. A run that exits with status 0 has printed
  nothing.
\<close>

theorem os_failure_exits_1_with_diagnostic:
  fixes B :: "'w backend"
  defines "out \<equiv> \<lambda>prog p rest w. fst (run B (prog # p # rest) w)"
    and "fin \<equiv> \<lambda>prog p rest w. snd (run B (prog # p # rest) w)"
  shows "(\<forall>path. Open path (- 1) \<in> set (trace (fin prog p rest w)) \<longrightarrow>
            out prog p rest w = Exited 1
            \<and> (\<exists>e. be_create B w p = Inl e \<and> stderr (fin prog p rest w) = [Perror ''open'' e]))
       \<and> (\<forall>path. Unlink path (- 1) \<in> set (trace (fin prog p rest w)) \<longrightarrow>
            out prog p rest w = Exited 1
            \<and> (\<exists>w1 e. be_create B w p = Inr w1 \<and> be_unlink B w1 p = Inl e
                  \<and> stderr (fin prog p rest w) = [Perror ''unlink'' e]))
       \<and> (\<forall>e. lookup_spec B w p = Some NotFound \<and> be_create B w p = Inl e \<longrightarrow>
            out prog p rest w = Exited 1 \<and> stderr (fin prog p rest w) = [Perror ''open'' e])
       \<and> (\<forall>w1 e. lookup_spec B w p = Some NotFound \<and> be_create B w p = Inr w1
              \<and> lookup_spec B w1 p = Some Found \<and> be_unlink B w1 p = Inl e \<longrightarrow>
            out prog p rest w = Exited 1 \<and> stderr (fin prog p rest w) = [Perror ''unlink'' e])
       \<and> (out prog p rest w = Exited 0 \<longrightarrow> stderr (fin prog p rest w) = [])
       \<and> eh msg (- 1) s = (Stop (Exited 1), s\<lparr>stderr := stderr s @ [Perror msg (errno s)]\<rparr>)"
proof -
  have a: "\<forall>path. Open path (- 1) \<in> set (trace (fin prog p rest w)) \<longrightarrow>
            out prog p rest w = Exited 1
            \<and> (\<exists>e. be_create B w p = Inl e \<and> stderr (fin prog p rest w) = [Perror ''open'' e])"
    unfolding out_def fin_def
    by (cases rule: run_cases [where p = p and B = B and w = w])
      (simp_all add: run_noslash run_unlisted1 run_present1 run_create_fails run_unlisted2
        run_absent2 run_unlink_fails run_unlisted3 run_present3 run_success init_def
        no_file_call_in_lookup)
  have b: "\<forall>path. Unlink path (- 1) \<in> set (trace (fin prog p rest w)) \<longrightarrow>
            out prog p rest w = Exited 1
            \<and> (\<exists>w1 e. be_create B w p = Inr w1 \<and> be_unlink B w1 p = Inl e
                  \<and> stderr (fin prog p rest w) = [Perror ''unlink'' e])"
    unfolding out_def fin_def
    by (cases rule: run_cases [where p = p and B = B and w = w])
      (simp_all add: run_noslash run_unlisted1 run_present1 run_create_fails run_unlisted2
        run_absent2 run_unlink_fails run_unlisted3 run_present3 run_success init_def
        no_file_call_in_lookup)
  have c: "\<forall>e. lookup_spec B w p = Some NotFound \<and> be_create B w p = Inl e \<longrightarrow>
            out prog p rest w = Exited 1 \<and> stderr (fin prog p rest w) = [Perror ''open'' e]"
    unfolding out_def fin_def
    by (cases rule: run_cases [where p = p and B = B and w = w])
      (simp_all add: run_create_fails init_def lookup_spec_def)
  have d: "\<forall>w1 e. lookup_spec B w p = Some NotFound \<and> be_create B w p = Inr w1
              \<and> lookup_spec B w1 p = Some Found \<and> be_unlink B w1 p = Inl e \<longrightarrow>
            out prog p rest w = Exited 1 \<and> stderr (fin prog p rest w) = [Perror ''unlink'' e]"
    unfolding out_def fin_def
    by (cases rule: run_cases [where p = p and B = B and w = w])
      (simp_all add: run_unlink_fails init_def lookup_spec_def)
  have e: "out prog p rest w = Exited 0 \<longrightarrow> stderr (fin prog p rest w) = []"
    unfolding out_def fin_def
    by (cases rule: run_cases [where p = p and B = B and w = w])
      (simp_all add: run_noslash run_unlisted1 run_present1 run_create_fails run_unlisted2
        run_absent2 run_unlink_fails run_unlisted3 run_present3 run_success init_def
        no_file_call_in_lookup)
  have f: "eh msg (- 1) s = (Stop (Exited 1), s\<lparr>stderr := stderr s @ [Perror msg (errno s)]\<rparr>)"
    by (simp add: eh_def perror_def)
  from a b c d e f show ?thesis by blast
qed

theorem os_failure_exits_1_with_diagnostic_witness:
  "Open (Some ''/tmp/test_dir/sample.txt'') (- 1)
     \<in> set (trace (snd (run ref_backend [''s3test'', ''/tmp/test_dir/sample.txt''] readonly_dir)))
   \<and> fst (run ref_backend [''s3test'', ''/tmp/test_dir/sample.txt''] readonly_dir) = Exited 1
   \<and> stderr (snd (run ref_backend [''s3test'', ''/tmp/test_dir/sample.txt''] readonly_dir))
       = [Perror ''open'' EACCES]
   \<and> Unlink (Some ''/tmp/test_dir/sample.txt'') (- 1)
     \<in> set (trace (snd (run ref_backend [''s3test'', ''/tmp/test_dir/sample.txt''] keep_dir)))
   \<and> fst (run ref_backend [''s3test'', ''/tmp/test_dir/sample.txt''] keep_dir) = Exited 1
   \<and> stderr (snd (run ref_backend [''s3test'', ''/tmp/test_dir/sample.txt''] keep_dir))
       = [Perror ''unlink'' EPERM]
   \<and> fst (run ref_backend [''s3test'', ''/tmp/test_dir/sample.txt''] test_dir) = Exited 0
   \<and> stderr (snd (run ref_backend [''s3test'', ''/tmp/test_dir/sample.txt''] test_dir)) = []"
proof -
  let ?p = "''/tmp/test_dir/sample.txt''"
  let ?with = "\<lambda>fs. fs\<lparr>dirs := (dirs fs)(''/tmp/test_dir/'' \<mapsto> [''.'', ''..'', ''sample.txt''])\<rparr>"
  have ro: "lookup_spec ref_backend readonly_dir ?p = Some NotFound
      \<and> be_create ref_backend readonly_dir ?p = Inl EACCES"
    by (simp add: lookup_spec_def sample_parts ref_ops ref_list_def ref_create_def
        is_dir_def readonly_dir_def)
  have keep: "lookup_spec ref_backend keep_dir ?p = Some NotFound
      \<and> be_create ref_backend keep_dir ?p = Inr (?with keep_dir)
      \<and> lookup_spec ref_backend (?with keep_dir) ?p = Some Found
      \<and> be_unlink ref_backend (?with keep_dir) ?p = Inl EPERM"
    by (simp add: lookup_spec_def sample_parts ref_ops ref_list_def ref_create_def
        ref_unlink_def is_dir_def keep_dir_def)
  have 1: "fst (run ref_backend [''s3test'', ?p] readonly_dir) = Exited 1
      \<and> stderr (snd (run ref_backend [''s3test'', ?p] readonly_dir)) = [Perror ''open'' EACCES]"
    using os_failure_exits_1_with_diagnostic
        [where B = ref_backend and w = readonly_dir and p = ?p and prog = "''s3test''" and rest = "[]"] ro
    by blast
  have 2: "fst (run ref_backend [''s3test'', ?p] keep_dir) = Exited 1
      \<and> stderr (snd (run ref_backend [''s3test'', ?p] keep_dir)) = [Perror ''unlink'' EPERM]"
    using os_failure_exits_1_with_diagnostic
        [where B = ref_backend and w = keep_dir and p = ?p and prog = "''s3test''" and rest = "[]"] keep
    by blast
  have 3: "stderr (snd (run ref_backend [''s3test'', ?p] test_dir)) = []"
    using os_failure_exits_1_with_diagnostic
        [where B = ref_backend and w = test_dir and p = ?p and prog = "''s3test''" and rest = "[]"]
      run_test_dir by blast
  have l0: "be_list ref_backend fs (parent_of ?p) = Inr [''.'', ''..'']"
    if "dirs fs ''/tmp/test_dir/'' = Some [''.'', ''..'']" for fs
    using that by (simp add: sample_parts ref_list_Inr)
  have a0: "name_of ?p \<notin> set [''.'', ''..'']"
    by (simp add: sample_parts)
  have l1: "be_list ref_backend (?with keep_dir) (parent_of ?p) = Inr [''.'', ''..'', ''sample.txt'']"
    by (simp add: sample_parts ref_list_Inr)
  have p1: "name_of ?p \<in> set [''.'', ''..'', ''sample.txt'']"
    by (simp add: sample_parts)
  have d_ro: "dirs readonly_dir ''/tmp/test_dir/'' = Some [''.'', ''..'']"
    by (simp add: readonly_dir_def)
  have d_keep: "dirs keep_dir ''/tmp/test_dir/'' = Some [''.'', ''..'']"
    by (simp add: keep_dir_def)
  have 4: "Open (Some ?p) (- 1) \<in> set (trace (snd (run ref_backend [''s3test'', ?p] readonly_dir)))"
    by (simp add: run_create_fails [OF sample_parts(1) l0 [OF d_ro] a0 conjunct2 [OF ro]])
  from keep have c: "be_create ref_backend keep_dir ?p = Inr (?with keep_dir)"
    and u: "be_unlink ref_backend (?with keep_dir) ?p = Inl EPERM"
    by blast+
  have 5: "Unlink (Some ?p) (- 1) \<in> set (trace (snd (run ref_backend [''s3test'', ?p] keep_dir)))"
    by (simp add: run_unlink_fails [OF sample_parts(1) l0 [OF d_keep] a0 c l1 p1 u])
  from 1 2 3 4 5 run_test_dir show ?thesis by simp
qed

text \<open>
  C5. When the parent directory of the path lists the name at the start, the first
  check fails: the run aborts on the assertion of line 46, with a status that is not
  zero, having made directory reads only, one lookup and neither \<open>open\<close> nor \<open>unlink\<close>;
  the world of the backend is the one the run started in.
\<close>

theorem existing_file_aborts_before_create:
  assumes "CHR ''/'' \<in> set p" and "be_list B w (parent_of p) = Inr es"
    and "name_of p \<in> set es"
  shows "fst (run B (prog # p # rest) w) = Aborted
       \<and> nonzero_status (fst (run B (prog # p # rest) w))
       \<and> world (snd (run B (prog # p # rest) w)) = w
       \<and> steps_run (trace (snd (run B (prog # p # rest) w))) = [Lookup]
       \<and> list_all is_dir_read (trace (snd (run B (prog # p # rest) w)))
       \<and> stderr (snd (run B (prog # p # rest) w))
           = [AssertFail 46 ''lookup_file(argv[1]) == ENOENT'']"
  by (simp add: run_present1 [OF assms] init_def steps_run_lookup dir_reads_lookup)

theorem existing_file_aborts_before_create_witness:
  "CHR ''/'' \<in> set ''/tmp/test_dir/sample.txt''
   \<and> be_list ref_backend occupied_dir (parent_of ''/tmp/test_dir/sample.txt'')
       = Inr [''.'', ''..'', ''sample.txt'']
   \<and> name_of ''/tmp/test_dir/sample.txt'' \<in> set [''.'', ''..'', ''sample.txt'']
   \<and> fst (run ref_backend [''s3test'', ''/tmp/test_dir/sample.txt''] occupied_dir) = Aborted
   \<and> world (snd (run ref_backend [''s3test'', ''/tmp/test_dir/sample.txt''] occupied_dir))
       = occupied_dir"
proof -
  have sep: "CHR ''/'' \<in> set ''/tmp/test_dir/sample.txt''" by simp
  have ls: "be_list ref_backend occupied_dir (parent_of ''/tmp/test_dir/sample.txt'')
      = Inr [''.'', ''..'', ''sample.txt'']"
    by (simp add: ref_list_Inr occupied_dir_def parent_of_def)
  have nm: "name_of ''/tmp/test_dir/sample.txt'' \<in> set [''.'', ''..'', ''sample.txt'']"
    by (simp add: name_of_def)
  from existing_file_aborts_before_create [OF sep ls nm, of "''s3test''" "[]"] sep ls nm
  show ?thesis by simp
qed

text \<open>
  C6. On the reference filesystem, a run exits with status 0 exactly when it starts
  with the path absent from its parent directory and with the creation and the unlink
  of the path permitted. Such a run adds exactly the one entry for the path to its parent
  directory and removes it again: the only calls that are not directory reads are the
  \<open>open\<close>, the \<open>close\<close> and the \<open>unlink\<close> of that path, and the filesystem at the end
  is the filesystem at the start. The same run started again on what the first one left
  exits with status 0 as well, and leaves the same filesystem once more.
\<close>

theorem successful_run_leaves_no_residue:
  fixes fs :: filesys and p prog :: string and rest :: "string list"
  defines "ready \<equiv> lookup_spec ref_backend fs p = Some NotFound \<and> name_of p \<noteq> []
      \<and> \<not> is_dir fs p \<and> parent_of p \<notin> deny_create fs \<and> p \<notin> deny_unlink fs"
    and "first \<equiv> run ref_backend (prog # p # rest) fs"
  defines "second \<equiv> run ref_backend (prog # p # rest) (world (snd first))"
  shows "(fst first = Exited 0 \<longleftrightarrow> ready)
       \<and> (ready \<longrightarrow>
            fst first = Exited 0
            \<and> world (snd first) = fs
            \<and> filter (\<lambda>c. \<not> is_dir_read c) (trace (snd first))
                = [Open (Some p) 3, Close 3 0, Unlink (Some p) 0]
            \<and> (\<exists>es. dirs fs (parent_of p) = Some es \<and> name_of p \<notin> set es
                  \<and> ref_create fs p
                      = Inr (fs\<lparr>dirs := (dirs fs)(parent_of p \<mapsto> es @ [name_of p])\<rparr>)
                  \<and> ref_unlink (fs\<lparr>dirs := (dirs fs)(parent_of p \<mapsto> es @ [name_of p])\<rparr>) p
                      = Inr fs)
            \<and> fst second = Exited 0
            \<and> world (snd second) = fs)"
proof -
  have only_if: "ready" if "fst first = Exited 0"
    using run_ref_exit0_ready [of prog p rest fs] that by (simp add: ready_def first_def)
  have "if": "fst first = Exited 0
      \<and> world (snd first) = fs
      \<and> filter (\<lambda>c. \<not> is_dir_read c) (trace (snd first))
          = [Open (Some p) 3, Close 3 0, Unlink (Some p) 0]
      \<and> (\<exists>es. dirs fs (parent_of p) = Some es \<and> name_of p \<notin> set es
            \<and> ref_create fs p = Inr (fs\<lparr>dirs := (dirs fs)(parent_of p \<mapsto> es @ [name_of p])\<rparr>)
            \<and> ref_unlink (fs\<lparr>dirs := (dirs fs)(parent_of p \<mapsto> es @ [name_of p])\<rparr>) p = Inr fs)
      \<and> fst second = Exited 0
      \<and> world (snd second) = fs" if r: "ready"
  proof -
    from r have abs: "lookup_spec ref_backend fs p = Some NotFound"
      and n: "name_of p \<noteq> []" and nd: "\<not> is_dir fs p"
      and pc: "parent_of p \<notin> deny_create fs" and pu: "p \<notin> deny_unlink fs"
      by (simp_all add: ready_def)
    from abs n nd pc pu obtain es where d: "dirs fs (parent_of p) = Some es"
      and a: "name_of p \<notin> set es"
      and run: "run ref_backend (prog # p # rest) fs =
        (Exited 0, (init fs)\<lparr>trace :=
            lookup_calls (parent_of p) (name_of p) es @ [Open (Some p) 3, Close 3 0]
            @ lookup_calls (parent_of p) (name_of p) (es @ [name_of p]) @ [Unlink (Some p) 0]
            @ lookup_calls (parent_of p) (name_of p) es\<rparr>)"
      by (rule run_ref_ready)
    have 1: "fst first = Exited 0" and 2: "world (snd first) = fs"
      by (simp_all add: first_def run init_def)
    have 3: "filter (\<lambda>c. \<not> is_dir_read c) (trace (snd first))
        = [Open (Some p) 3, Close 3 0, Unlink (Some p) 0]"
      by (simp add: first_def run not_dir_read_lookup)
    have 4: "\<exists>es. dirs fs (parent_of p) = Some es \<and> name_of p \<notin> set es
        \<and> ref_create fs p = Inr (fs\<lparr>dirs := (dirs fs)(parent_of p \<mapsto> es @ [name_of p])\<rparr>)
        \<and> ref_unlink (fs\<lparr>dirs := (dirs fs)(parent_of p \<mapsto> es @ [name_of p])\<rparr>) p = Inr fs"
      using d a ref_cycle [OF d a n nd pc pu] by blast
    have "second = first"
      by (simp add: second_def 2) (simp add: first_def)
    with 1 2 have 5: "fst second = Exited 0" and 6: "world (snd second) = fs"
      by simp_all
    from 1 2 3 4 5 6 show ?thesis by blast
  qed
  from only_if "if" show ?thesis by blast
qed

text \<open>
  The end-to-end scenario: an empty directory, nothing refused. The run passes, no file
  remains, and the run passes again.
\<close>

theorem successful_run_leaves_no_residue_witness:
  "lookup_spec ref_backend test_dir ''/tmp/test_dir/sample.txt'' = Some NotFound
   \<and> name_of ''/tmp/test_dir/sample.txt'' = ''sample.txt''
   \<and> parent_of ''/tmp/test_dir/sample.txt'' = ''/tmp/test_dir/''
   \<and> fst (run ref_backend [''s3test'', ''/tmp/test_dir/sample.txt''] test_dir) = Exited 0
   \<and> world (snd (run ref_backend [''s3test'', ''/tmp/test_dir/sample.txt''] test_dir)) = test_dir
   \<and> filter (\<lambda>c. \<not> is_dir_read c)
        (trace (snd (run ref_backend [''s3test'', ''/tmp/test_dir/sample.txt''] test_dir)))
       = [Open (Some ''/tmp/test_dir/sample.txt'') 3, Close 3 0,
          Unlink (Some ''/tmp/test_dir/sample.txt'') 0]
   \<and> fst (run ref_backend [''s3test'', ''/tmp/test_dir/sample.txt'']
        (world (snd (run ref_backend [''s3test'', ''/tmp/test_dir/sample.txt''] test_dir))))
       = Exited 0"
proof -
  let ?p = "''/tmp/test_dir/sample.txt''"
  have ready: "lookup_spec ref_backend test_dir ?p = Some NotFound \<and> name_of ?p \<noteq> []
      \<and> \<not> is_dir test_dir ?p \<and> parent_of ?p \<notin> deny_create test_dir
      \<and> ?p \<notin> deny_unlink test_dir"
    by (simp add: lookup_spec_def sample_parts ref_ops ref_list_def is_dir_def test_dir_def)
  from successful_run_leaves_no_residue [where p = ?p and fs = test_dir and prog = "''s3test''"
      and rest = "[]"] ready
  have "fst (run ref_backend [''s3test'', ?p] test_dir) = Exited 0
      \<and> world (snd (run ref_backend [''s3test'', ?p] test_dir)) = test_dir
      \<and> filter (\<lambda>c. \<not> is_dir_read c) (trace (snd (run ref_backend [''s3test'', ?p] test_dir)))
          = [Open (Some ?p) 3, Close 3 0, Unlink (Some ?p) 0]
      \<and> fst (run ref_backend [''s3test'', ?p]
            (world (snd (run ref_backend [''s3test'', ?p] test_dir)))) = Exited 0"
    by blast
  with ready show ?thesis by (simp add: sample_parts)
qed

end
